theory Spec2Isabelle
  imports Main "HOL-Library.Char_ord" "HOL-Library.List_Lexorder" "HOL-Library.Multiset"
begin

section \<open>Python strings\<close>

text \<open>
  The extension (\<^verbatim>\<open>sphinx_click/ext.py\<close>) formats text.  A Python \<^verbatim>\<open>str\<close> is modelled as
  a \<^typ>\<open>string\<close>, a list of characters read as the code points 0 to 255; the built-in
  string methods the extension calls are modelled on that range as CPython defines them.
  \<^verbatim>\<open>str.splitlines\<close> ends a line at \<^verbatim>\<open>\n \v \f \r \x1c \x1d \x1e \x85\<close> (and takes
  \<^verbatim>\<open>\r\n\<close> as one ending); \<^verbatim>\<open>str.strip\<close> without argument removes the characters for
  which \<^verbatim>\<open>str.isspace\<close> holds.
\<close>

abbreviation TAB :: char where "TAB \<equiv> CHR 0x09"
abbreviation LF :: char where "LF \<equiv> CHR 0x0A"
abbreviation CR :: char where "CR \<equiv> CHR 0x0D"
abbreviation SP :: char where "SP \<equiv> CHR 0x20"
abbreviation DQ :: char where "DQ \<equiv> CHR 0x22"

definition is_linebreak :: "char \<Rightarrow> bool" where
  "is_linebreak c \<longleftrightarrow>
     c \<in> set [CHR 0x0A, CHR 0x0B, CHR 0x0C, CHR 0x0D, CHR 0x1C, CHR 0x1D, CHR 0x1E, CHR 0x85]"

definition is_space :: "char \<Rightarrow> bool" where
  "is_space c \<longleftrightarrow>
     c \<in> set [CHR 0x09, CHR 0x0A, CHR 0x0B, CHR 0x0C, CHR 0x0D, CHR 0x1C, CHR 0x1D, CHR 0x1E,
               CHR 0x1F, CHR 0x20, CHR 0x85, CHR 0xA0]"

definition lstrip :: "string \<Rightarrow> string" where
  "lstrip s = dropWhile is_space s"

definition rstrip :: "string \<Rightarrow> string" where
  "rstrip s = rev (dropWhile is_space (rev s))"

definition strip :: "string \<Rightarrow> string" where
  "strip s = rstrip (lstrip s)"

text \<open>The line ending that starts at the head of the text: \<^verbatim>\<open>\r\n\<close> or one character.\<close>

fun eol_at :: "string \<Rightarrow> string" where
  "eol_at [] = []"
| "eol_at [c] = [c]"
| "eol_at (c # d # cs) = (if c = CR \<and> d = LF then [c, d] else [c])"

text \<open>
  \<^verbatim>\<open>s.splitlines(keepends)\<close>: scan to the next line break, emit the line (with its ending
  when \<open>keepends\<close>), continue behind the ending.  The text after the last ending is a
  line of its own when it is not empty.
\<close>

function splitlines :: "bool \<Rightarrow> string \<Rightarrow> string list" where
  "splitlines keepends s =
     (if s = [] then []
      else
        let body = takeWhile (\<lambda>c. \<not> is_linebreak c) s;
            rest = dropWhile (\<lambda>c. \<not> is_linebreak c) s;
            eol = eol_at rest
        in (if keepends then body @ eol else body) # splitlines keepends (drop (length eol) rest))"
  by pat_completeness auto
termination
proof (relation "measure (\<lambda>(k, s). length s)")
  show "wf (measure (\<lambda>(k, s). length s))" by simp
next
  fix keepends :: bool and s body rest eol :: string
  assume ne: "s \<noteq> []"
    and r: "rest = dropWhile (\<lambda>c. \<not> is_linebreak c) s"
    and e: "eol = eol_at rest"
  have "length (drop (length eol) rest) < length s"
  proof (cases rest)
    case Nil
    with ne show ?thesis by simp
  next
    case (Cons c cs)
    then have "eol \<noteq> []" using e by (cases cs) auto
    then have "length (drop (length eol) rest) < length rest"
      using Cons by (cases eol) auto
    also have "length rest \<le> length s"
      unfolding r by (rule length_dropWhile_le)
    finally show ?thesis .
  qed
  then show "((keepends, drop (length eol) rest), (keepends, s)) \<in> measure (\<lambda>(k, s). length s)"
    by simp
qed

declare splitlines.simps [simp del]

section \<open>Indentation\<close>

text \<open>
  \<^verbatim>\<open>_indent(text, level=1)\<close>.  The nested generator \<^verbatim>\<open>prefixed_lines\<close> closes over the text
  and the prefix; a line gets the prefix when \<^verbatim>\<open>line.strip()\<close> is not empty.  A negative
  level gives the empty prefix, as \<^verbatim>\<open>' ' * n\<close> does for \<open>n < 0\<close>.
\<close>

definition prefixed_lines :: "string \<Rightarrow> string \<Rightarrow> string list" where
  "prefixed_lines text prefix =
     map (\<lambda>line. if strip line \<noteq> [] then prefix @ line else line) (splitlines True text)"

definition indent :: "string \<Rightarrow> int \<Rightarrow> string" where
  "indent text level =
     (let prefix = replicate (nat (4 * level)) SP
      in concat (prefixed_lines text prefix))"

text \<open>
  Notions for stating properties of lines: the ending of a line (everything from its first
  line-break character on), what a line ending is, and when a list of strings is a list of
  lines as \<^const>\<open>splitlines\<close> produces them.
\<close>

definition line_ending :: "string \<Rightarrow> string" where
  "line_ending l = dropWhile (\<lambda>c. \<not> is_linebreak c) l"

fun is_eol :: "string \<Rightarrow> bool" where
  "is_eol [c] = is_linebreak c"
| "is_eol [c, d] = (c = CR \<and> d = LF)"
| "is_eol _ = False"

fun lines_ok :: "string list \<Rightarrow> bool" where
  "lines_ok [] = True"
| "lines_ok [l] = (l \<noteq> [] \<and> (line_ending l = [] \<or> is_eol (line_ending l)))"
| "lines_ok (l # m # ls) =
     (is_eol (line_ending l) \<and> \<not> (line_ending l = [CR] \<and> hd m = LF) \<and> lines_ok (m # ls))"

section \<open>More string methods\<close>

text \<open>\<^verbatim>\<open>sep.join(xs)\<close>.\<close>

fun join :: "string \<Rightarrow> string list \<Rightarrow> string" where
  "join sep [] = []"
| "join sep [x] = x"
| "join sep (x # y # ys) = x @ sep @ join sep (y # ys)"

text \<open>\<^verbatim>\<open>s.split(sep)\<close> for a separator of one character: every separator ends a field.\<close>

fun split_on :: "char \<Rightarrow> string \<Rightarrow> string list" where
  "split_on sep [] = [[]]"
| "split_on sep (c # cs) =
     (if c = sep then [] # split_on sep cs
      else (case split_on sep cs of
              [] \<Rightarrow> [[c]]
            | field # fields \<Rightarrow> (c # field) # fields))"

text \<open>\<^verbatim>\<open>s.split(sep, maxsplit)\<close>: at most \<open>maxsplit\<close> splits, from the left.\<close>

fun split_max :: "char \<Rightarrow> nat \<Rightarrow> string \<Rightarrow> string list" where
  "split_max sep 0 s = [s]"
| "split_max sep (Suc n) s =
     (if sep \<in> set s
      then takeWhile (\<lambda>c. c \<noteq> sep) s # split_max sep n (tl (dropWhile (\<lambda>c. c \<noteq> sep) s))
      else [s])"

text \<open>
  \<^verbatim>\<open>s.expandtabs(tabsize)\<close>: a tab becomes the spaces up to the next tab stop; the column
  starts again behind \<^verbatim>\<open>\n\<close> and \<^verbatim>\<open>\r\<close>; with a tab size of 0 tabs are removed.
\<close>

fun expandtabs_from :: "nat \<Rightarrow> nat \<Rightarrow> string \<Rightarrow> string" where
  "expandtabs_from tabsize col [] = []"
| "expandtabs_from tabsize col (c # cs) =
     (if c = TAB then
        (if tabsize > 0
         then replicate (tabsize - col mod tabsize) SP
                @ expandtabs_from tabsize (col + (tabsize - col mod tabsize)) cs
         else expandtabs_from tabsize col cs)
      else if c = LF \<or> c = CR then c # expandtabs_from tabsize 0 cs
      else c # expandtabs_from tabsize (Suc col) cs)"

definition expandtabs :: "nat \<Rightarrow> string \<Rightarrow> string" where
  "expandtabs tabsize s = expandtabs_from tabsize 0 s"

text \<open>\<^verbatim>\<open>str.isalnum\<close> of one character, on the code points 0 to 255.\<close>

definition is_alnum :: "char \<Rightarrow> bool" where
  "is_alnum c \<longleftrightarrow>
     (let n = (of_char c :: nat)
      in (48 \<le> n \<and> n \<le> 57) \<or> (65 \<le> n \<and> n \<le> 90) \<or> (97 \<le> n \<and> n \<le> 122)
         \<or> n \<in> set [170, 178, 179, 181, 185, 186, 188, 189, 190]
         \<or> (192 \<le> n \<and> n \<le> 214) \<or> (216 \<le> n \<and> n \<le> 246) \<or> 248 \<le> n)"

text \<open>\<^verbatim>\<open>str(i)\<close> of an integer: its decimal digits.\<close>

fun digits :: "nat \<Rightarrow> string" where
  "digits n = (if n < 10 then [char_of (48 + n)] else digits (n div 10) @ [char_of (48 + n mod 10)])"

declare digits.simps [simp del]

definition str_of_int :: "int \<Rightarrow> string" where
  "str_of_int i = (if i < 0 then CHR ''-'' # digits (nat (- i)) else digits (nat i))"

section \<open>The command objects of click\<close>

text \<open>
  The extension reads click's objects and never changes them.  A value that is formatted
  by \<^verbatim>\<open>str()\<close> is an integer, a string, or another object given by what \<^verbatim>\<open>str()\<close> returns
  for it.
\<close>

datatype pyvalue = PyInt int | PyStr string | PyObj string

fun py_str :: "pyvalue \<Rightarrow> string" where
  "py_str (PyInt i) = str_of_int i"
| "py_str (PyStr s) = s"
| "py_str (PyObj s) = s"

text \<open>
  The default of an option is \<^verbatim>\<open>None\<close>, one value that is neither a list nor a tuple, or a
  list or tuple.  An element of such a sequence is a tuple (as for an option with
  \<^verbatim>\<open>nargs=2, multiple=True\<close>) or another value; the extension applies \<^verbatim>\<open>'%s' % d\<close> to it,
  which reads a tuple as the tuple of the arguments of the format and uses of every other
  value, and of the items of the tuple, only what \<^verbatim>\<open>str()\<close> returns.
\<close>

datatype py_item = Plain pyvalue | PyTuple "pyvalue list"

datatype py_default = Scalar pyvalue | Sequence "py_item list"

text \<open>
  A parameter is a \<^verbatim>\<open>click.Option\<close> or a \<^verbatim>\<open>click.Argument\<close>.  The record holds the
  attributes the extension reads: \<open>count_flag\<close> is \<^verbatim>\<open>count\<close>, \<open>help_str\<close> is \<^verbatim>\<open>help\<close>,
  \<open>default_val\<close> is \<^verbatim>\<open>default\<close>, \<open>metavar\<close> is what \<^verbatim>\<open>make_metavar()\<close> returns, \<open>hidden\<close> is
  \<^verbatim>\<open>getattr(x, 'hidden', False)\<close>, and \<open>rich_help\<close> is \<open>None\<close> when the object has no
  attribute \<^verbatim>\<open>rich_help\<close> and the attribute's value (a string or \<^verbatim>\<open>None\<close>) otherwise.
\<close>

datatype param_kind = OptionKind | ArgumentKind

record param =
  kind :: param_kind
  opts :: "string list"
  secondary_opts :: "string list"
  is_flag :: bool
  count_flag :: bool
  metavar :: string
  help_str :: "string option"
  rich_help :: "string option option"
  default_val :: "py_default option"
  show_default :: bool
  required :: bool
  hidden :: bool
  envvar :: "string option"
  human_readable_name :: string
  nargs :: int

text \<open>
  A command: \<open>help_text\<close> is \<^verbatim>\<open>help\<close>, \<open>usage_pieces\<close> is what
  \<^verbatim>\<open>collect_usage_pieces(ctx)\<close> returns, and \<open>commands\<close> is
  \<^verbatim>\<open>getattr(command, 'commands', {})\<close>: the dictionary of a group in insertion order, and
  the empty dictionary for a command that is no group.
\<close>

datatype command =
  Command (name: string) (help_text: "string option") (short_help: "string option")
    (usage_pieces: "string list") (params: "param list") (commands: "(string \<times> command) list")

text \<open>\<^verbatim>\<open>click.Context(command, info_name=name, parent=parent)\<close> and its \<^verbatim>\<open>command_path\<close>.\<close>

datatype click_context =
  Context (command: command) (info_name: string) (parent: "click_context option")

fun command_path :: "click_context \<Rightarrow> string" where
  "command_path (Context c n None) = lstrip n"
| "command_path (Context c n (Some p)) = lstrip (command_path p @ '' '' @ n)"

text \<open>
  \<^verbatim>\<open>click.formatting.join_options\<close>: the options sorted by the length of their prefix
  (\<^verbatim>\<open>split_opt\<close>), joined with a comma, and whether a prefix is a slash.
\<close>

definition split_opt :: "string \<Rightarrow> string \<times> string" where
  "split_opt opt =
     (let first = take 1 opt
      in if first \<noteq> [] \<and> list_all is_alnum first then ([], opt)
         else if take 1 (drop 1 opt) = first then (take 2 opt, drop 2 opt)
         else (first, drop 1 opt))"

definition join_options :: "string list \<Rightarrow> string \<times> bool" where
  "join_options options =
     (join '', '' (sort_key (\<lambda>opt. length (fst (split_opt opt))) options),
      list_ex (\<lambda>opt. fst (split_opt opt) = ''/'') options)"

text \<open>
  \<^verbatim>\<open>docutils.statemachine.string2lines(astring, tab_width, convert_whitespace)\<close>: form feeds
  and vertical tabs become spaces when asked for, then every line has its tabs expanded
  and its trailing whitespace removed.
\<close>

definition string2lines :: "string \<Rightarrow> nat \<Rightarrow> bool \<Rightarrow> string list" where
  "string2lines astring tab_width convert_whitespace =
     (let astring = (if convert_whitespace
                     then map (\<lambda>c. if c = CHR 0x0B \<or> c = CHR 0x0C then SP else c) astring
                     else astring)
      in map (\<lambda>s. rstrip (expandtabs tab_width s)) (splitlines False astring))"

text \<open>Truth of an optional string, and \<^verbatim>\<open>a or b\<close> on optional strings.\<close>

fun truthy :: "string option \<Rightarrow> bool" where
  "truthy None = False"
| "truthy (Some s) = (s \<noteq> [])"

definition py_or :: "string option \<Rightarrow> string option \<Rightarrow> string option" where
  "py_or a b = (if truthy a then a else b)"

section \<open>The formatters\<close>

text \<open>
  Every \<^verbatim>\<open>_format_...\<close> function is a generator of lines; the model returns the list of
  the lines it yields.  A generator that raises gives the error instead: its caller never
  sees the lines yielded before.
\<close>

datatype exn = SystemExit | Raised string

datatype error =
    MalformedReference string
  | ImportFailure string string exn
  | AttributeMissing string string
  | MissingProgOption
  | MissingContext string
  | IndexError
  | AttributeError
  | TypeError string

text \<open>
  \<^verbatim>\<open>'%s' % d\<close>: a tuple on the right is the tuple of the arguments, and the format takes
  exactly one; every other value is the one argument itself.
\<close>

fun percent_s :: "py_item \<Rightarrow> error + string" where
  "percent_s (Plain v) = Inr (py_str v)"
| "percent_s (PyTuple []) = Inl (TypeError ''not enough arguments for format string'')"
| "percent_s (PyTuple [v]) = Inr (py_str v)"
| "percent_s (PyTuple (v # w # vs)) =
     Inl (TypeError ''not all arguments converted during string formatting'')"

text \<open>The values a generator expression yields, or the first error one of them raises.\<close>

fun collect :: "(error + 'a) list \<Rightarrow> error + 'a list" where
  "collect [] = Inr []"
| "collect (r # rs) =
     (case r of
        Inl e \<Rightarrow> Inl e
      | Inr x \<Rightarrow> (case collect rs of Inl e \<Rightarrow> Inl e | Inr xs \<Rightarrow> Inr (x # xs)))"

definition get_usage :: "click_context \<Rightarrow> string" where
  "get_usage ctx =
     (let pieces = usage_pieces (command ctx)
      in ''**'' @ command_path ctx @ ''** '' @ join '' '' pieces)"

definition write_opts :: "param \<Rightarrow> string list \<Rightarrow> string" where
  "write_opts opt os =
     (let rv = fst (join_options os)
      in if \<not> is_flag opt \<and> \<not> count_flag opt then rv @ '' '' @ metavar opt else rv)"

text \<open>
  \<^verbatim>\<open>_get_help_record(opt)\<close>.  An error of \<^verbatim>\<open>'%s' % d\<close> for an element of a shown sequence
  default leaves the function at once: no record is returned.
\<close>

definition get_help_record :: "param \<Rightarrow> error + string \<times> string option" where
  "get_help_record opt =
     (let rv = [write_opts opt (opts opt)]
               @ (if secondary_opts opt \<noteq> [] then [write_opts opt (secondary_opts opt)] else []);
          help = (case rich_help opt of
                    Some rich \<Rightarrow> rich
                  | None \<Rightarrow> Some (case help_str opt of Some h \<Rightarrow> h | None \<Rightarrow> []))
      in case (if default_val opt \<noteq> None \<and> show_default opt
               then (case default_val opt of
                       Some (Sequence ds) \<Rightarrow>
                         (case collect (map percent_s ds) of
                            Inl e \<Rightarrow> Inl e
                          | Inr texts \<Rightarrow> Inr [''default: '' @ join '', '' texts])
                     | Some (Scalar d) \<Rightarrow> Inr [''default: '' @ py_str d]
                     | None \<Rightarrow> Inr [''default: None''])
               else Inr []) of
           Inl e \<Rightarrow> Inl e
         | Inr extra \<Rightarrow>
             (let extra = extra @ (if required opt then [''required''] else []);
                  help = (if extra \<noteq> []
                          then Some ((if truthy help then the help @ ''  '' else [])
                                     @ ''['' @ join ''; '' extra @ '']'')
                          else help)
              in Inr (join '', '' rv, help)))"

definition format_description :: "click_context \<Rightarrow> string list" where
  "format_description ctx =
     (let help_string = py_or (help_text (command ctx)) (short_help (command ctx))
      in if \<not> truthy help_string then []
         else filter (\<lambda>line. strip line \<noteq> [CHR 0x08]) (string2lines (the help_string) 4 True)
              @ [[]])"

definition format_usage :: "click_context \<Rightarrow> string list" where
  "format_usage ctx = [[]] @ splitlines False (get_usage ctx) @ [[]]"

definition format_option :: "param \<Rightarrow> error + string list" where
  "format_option opt =
     (case get_help_record opt of
        Inl e \<Rightarrow> Inl e
      | Inr opt \<Rightarrow>
          Inr ([''.. option:: '' @ fst opt]
               @ (if truthy (snd opt)
                  then [[]] @ map (\<lambda>line. indent line 1) (string2lines (the (snd opt)) 4 True)
                  else [])))"

fun format_options_of :: "param list \<Rightarrow> error + string list" where
  "format_options_of [] = Inr []"
| "format_options_of (param # rest) =
     (case format_option param of
        Inl e \<Rightarrow> Inl e
      | Inr ls \<Rightarrow>
          (case format_options_of rest of
             Inl e \<Rightarrow> Inl e
           | Inr others \<Rightarrow> Inr (ls @ [[]] @ others)))"

definition format_options :: "click_context \<Rightarrow> error + string list" where
  "format_options ctx =
     format_options_of (filter (\<lambda>x. kind x = OptionKind \<and> \<not> hidden x) (params (command ctx)))"

definition format_argument :: "param \<Rightarrow> string list" where
  "format_argument arg =
     [''.. option:: '' @ human_readable_name arg,
      [],
      indent ((if required arg then ''Required'' else ''Optional'') @ '' argument''
              @ (if nargs arg \<noteq> 1 then ''(s)'' else [])) 1]"

definition format_arguments :: "click_context \<Rightarrow> string list" where
  "format_arguments ctx =
     (let params = filter (\<lambda>x. kind x = ArgumentKind) (params (command ctx))
      in concat (map (\<lambda>param. format_argument param @ [[]]) params))"

text \<open>
  \<^verbatim>\<open>_format_envvar\<close> reads \<^verbatim>\<open>param.opts[0]\<close> for an option: an \<^verbatim>\<open>IndexError\<close> when the
  option has no primary flag name.
\<close>

definition format_envvar :: "param \<Rightarrow> error + string list" where
  "format_envvar param =
     (case (if kind param = ArgumentKind then Inr (human_readable_name param)
            else (case opts param of [] \<Rightarrow> Inl IndexError | first # _ \<Rightarrow> Inr first)) of
        Inl e \<Rightarrow> Inl e
      | Inr param_ref \<Rightarrow>
          Inr [''.. envvar:: '' @ (case envvar param of Some v \<Rightarrow> v | None \<Rightarrow> ''None''),
               [],
               indent (''Provide a default for :option:`'' @ param_ref @ ''`'') 1])"

fun format_envvars_of :: "param list \<Rightarrow> error + string list" where
  "format_envvars_of [] = Inr []"
| "format_envvars_of (param # rest) =
     (case format_envvar param of
        Inl e \<Rightarrow> Inl e
      | Inr ls \<Rightarrow>
          (case format_envvars_of rest of
             Inl e \<Rightarrow> Inl e
           | Inr others \<Rightarrow> Inr (ls @ [[]] @ others)))"

definition format_envvars :: "click_context \<Rightarrow> error + string list" where
  "format_envvars ctx =
     format_envvars_of (filter (\<lambda>x. truthy (envvar x)) (params (command ctx)))"

definition format_subcommand :: "command \<Rightarrow> string list" where
  "format_subcommand cmd =
     [''.. object:: '' @ name cmd]
     @ (if truthy (short_help cmd)
        then [[]] @ map (\<lambda>line. indent line 1) (string2lines (the (short_help cmd)) 4 True)
        else [])"

text \<open>
  \<^verbatim>\<open>_filter_commands(ctx, commands=None)\<close>.  Without a list: the values of the dictionary,
  sorted by their \<^verbatim>\<open>name\<close> (\<^verbatim>\<open>sorted\<close> is stable, and strings compare by code point).
  With a list: the names between the commas, stripped, each looked up when it is a key.
\<close>

definition filter_commands :: "click_context \<Rightarrow> string option \<Rightarrow> command list" where
  "filter_commands ctx commands_arg =
     (case commands_arg of
        None \<Rightarrow> sort_key name (map snd (commands (command ctx)))
      | Some listed \<Rightarrow>
          (let names = map strip (split_on CHR '','' listed);
               lookup = commands (command ctx)
           in concat (map (\<lambda>n. case map_of lookup n of Some c \<Rightarrow> [c] | None \<Rightarrow> []) names)))"

text \<open>
  \<^verbatim>\<open>_format_command(ctx, show_nested, commands=None)\<close>.  The lines of the options are made
  before those of the environment variables: an error of the options comes first.
\<close>

definition format_command :: "click_context \<Rightarrow> bool \<Rightarrow> string option \<Rightarrow> error + string list" where
  "format_command ctx show_nested commands_arg =
     (let out = [''.. program:: '' @ command_path ctx, [],
                 ''Synopsis'', ''--------'', []]
                @ format_usage ctx
                @ [''Description'', ''-----------'', []]
                @ format_description ctx
      in case format_options ctx of
           Inl e \<Rightarrow> Inl e
         | Inr lines \<Rightarrow>
             (let out = out @ (if lines \<noteq> [] then [''Options'', ''-------'', []] else []) @ lines;
                  lines = format_arguments ctx;
                  out = out @ (if lines \<noteq> [] then [''Arguments'', ''---------'', []] else [])
                            @ lines
              in case format_envvars ctx of
                   Inl e \<Rightarrow> Inl e
                 | Inr lines \<Rightarrow>
                     (let out = out @ (if lines \<noteq> []
                                       then [''Environment variables'', ''---------------------'', []]
                                       else []) @ lines
                      in if show_nested then Inr out
                         else
                           (let selected = filter_commands ctx commands_arg
                            in Inr (out @ (if selected \<noteq> [] then [''Commands'', ''--------'', []]
                                           else [])
                                        @ concat (map (\<lambda>cmd. format_subcommand cmd @ [[]])
                                                      selected))))))"

section \<open>The tree walker\<close>

text \<open>
  \<^verbatim>\<open>nested_parse_with_titles(self.state, result, node)\<close> hands the lines to the parser of
  docutils, which adds the nodes it reads from them to \<^verbatim>\<open>node\<close>.  The parser is not part of
  the extension: \<open>Parsed source lines\<close> stands for the nodes it makes of the lines of one
  \<^verbatim>\<open>ViewList\<close>, every line recorded with the same source name.  \<^verbatim>\<open>node.extend\<close> appends the
  nodes of a subcommand behind them, and \<^verbatim>\<open>node[:]\<close> is the list of all of them.
\<close>

datatype node = Parsed string "string list"

text \<open>The loop over the subcommands: the first error ends it.\<close>

fun extend_all :: "(error + node list) list \<Rightarrow> error + node list" where
  "extend_all [] = Inr []"
| "extend_all (r # rs) =
     (case r of
        Inl e \<Rightarrow> Inl e
      | Inr ns \<Rightarrow> (case extend_all rs of Inl e \<Rightarrow> Inl e | Inr ms \<Rightarrow> Inr (ns @ ms)))"

lemma subcommand_smaller: "(k, sub) \<in> set (commands cmd) \<Longrightarrow> size sub < size cmd"
proof -
  assume mem: "(k, sub) \<in> set (commands cmd)"
  have "size_prod (\<lambda>_. 0) size (k, sub) \<le> size_list (size_prod (\<lambda>_. 0) size) (commands cmd)"
    using mem size_list_estimation' by fastforce
  then show ?thesis by (cases cmd) simp
qed

lemma filter_commands_subset:
  "sub \<in> set (filter_commands ctx commands_arg) \<Longrightarrow> \<exists>k. (k, sub) \<in> set (commands (command ctx))"
proof (cases commands_arg)
  case None
  assume "sub \<in> set (filter_commands ctx commands_arg)"
  with None show ?thesis by (auto simp: filter_commands_def)
next
  case (Some listed)
  assume "sub \<in> set (filter_commands ctx commands_arg)"
  with Some obtain n where "map_of (commands (command ctx)) n = Some sub"
    by (auto simp: filter_commands_def split: option.splits)
  then have "(n, sub) \<in> set (commands (command ctx))" by (rule map_of_SomeD)
  then show ?thesis ..
qed

text \<open>
  \<^verbatim>\<open>ClickDirective._generate_nodes(name, command, parent=None, show_nested=False,
  commands=None)\<close>.  The call for a subcommand passes the name, the subcommand, the context
  and the flag, and leaves \<^verbatim>\<open>commands\<close> at its default.
\<close>

function generate_nodes ::
  "string \<Rightarrow> command \<Rightarrow> click_context option \<Rightarrow> bool \<Rightarrow> string option \<Rightarrow> error + node list" where
  "generate_nodes nm cmd parent_ctx show_nested commands_arg =
     (let ctx = Context cmd nm parent_ctx;
          source_name = command_path ctx
      in case format_command ctx show_nested commands_arg of
           Inl e \<Rightarrow> Inl e
         | Inr lines \<Rightarrow>
             (let node = [Parsed source_name lines]
              in if show_nested
                 then (case extend_all
                              (map (\<lambda>sub. generate_nodes (name sub) sub (Some ctx) show_nested None)
                                   (filter_commands ctx commands_arg)) of
                         Inl e \<Rightarrow> Inl e
                       | Inr children \<Rightarrow> Inr (node @ children))
                 else Inr node))"
  by pat_completeness auto
termination
proof (relation "measure (\<lambda>(nm, cmd, parent_ctx, show_nested, commands_arg). size cmd)")
  show "wf (measure (\<lambda>(nm, cmd, parent_ctx, show_nested, commands_arg). size cmd))" by simp
next
  fix nm cmd parent_ctx show_nested commands_arg ctx sub
  assume ctx: "ctx = Context cmd nm parent_ctx"
    and sub: "sub \<in> set (filter_commands ctx commands_arg)"
  from sub obtain k where "(k, sub) \<in> set (commands (command ctx))"
    using filter_commands_subset by blast
  then have "size sub < size cmd" unfolding ctx by (simp add: subcommand_smaller)
  then show "((name sub, sub, Some ctx, show_nested, None), (nm, cmd, parent_ctx, show_nested, commands_arg))
      \<in> measure (\<lambda>(nm, cmd, parent_ctx, show_nested, commands_arg). size cmd)"
    by simp
qed

declare generate_nodes.simps [simp del]

section \<open>The module resolver\<close>

text \<open>
  \<^verbatim>\<open>__import__(module_name, globals(), locals(), [attr_name])\<close> returns a module or raises.
  What it does for a name is given by the interpreter and its path, not by the extension:
  the importer is a parameter.  A module is the map from its attribute names to their
  values; an exception is \<^verbatim>\<open>SystemExit\<close> or another one, given by the text
  \<^verbatim>\<open>traceback.format_exc()\<close> prints for it.
\<close>

datatype 'v import_outcome = Imported "string \<Rightarrow> 'v option" | ImportRaises exn

type_synonym 'v importer = "string \<Rightarrow> string list \<Rightarrow> 'v import_outcome"

text \<open>
  \<^verbatim>\<open>self.error(message)\<close>: the message of each error of the directives.  The names of the
  errors are those of the specification; the extension raises them all as the error of
  the directive.
\<close>

fun error_message :: "error \<Rightarrow> string" where
  "error_message (MalformedReference module_path) =
     [DQ] @ module_path @ [DQ] @ '' is not of format '' @ [DQ] @ ''module:parser'' @ [DQ]"
| "error_message (ImportFailure attr_name module_name exc) =
     ''Failed to import '' @ [DQ] @ attr_name @ [DQ] @ '' from '' @ [DQ] @ module_name
       @ [DQ] @ ''. ''
       @ (case exc of
            SystemExit \<Rightarrow> ''The module appeared to call sys.exit()''
          | Raised traceback \<Rightarrow> ''The following exception was raised:'' @ [LF] @ traceback)"
| "error_message (AttributeMissing module_name attr_name) =
     ''Module '' @ [DQ] @ module_name @ [DQ] @ '' has no attribute '' @ [DQ] @ attr_name
       @ [DQ]"
| "error_message MissingProgOption = '':prog: must be specified''"
| "error_message (MissingContext directive_name) =
     ''The '' @ directive_name @ '' directive can only be used within a `click` directive.''"
| "error_message IndexError = ''list index out of range''"
| "error_message AttributeError = []"
| "error_message (TypeError message) = message"

text \<open>
  \<^verbatim>\<open>AbstractClickDirective._load_module(module_path)\<close>.  The path is a string, which
  \<^verbatim>\<open>str(module_path)\<close> returns as it is.  Unpacking the result of \<^verbatim>\<open>split(':', 1)\<close> into two
  names raises \<^verbatim>\<open>ValueError\<close> unless it has two parts.
\<close>

definition load_module :: "'v importer \<Rightarrow> string \<Rightarrow> error + 'v" where
  "load_module importer module_path =
     (case split_max CHR '':'' 1 module_path of
        [module_name, attr_name] \<Rightarrow>
          (case importer module_name [attr_name] of
             ImportRaises exc \<Rightarrow> Inl (ImportFailure attr_name module_name exc)
           | Imported module \<Rightarrow>
               (case module attr_name of
                  None \<Rightarrow> Inl (AttributeMissing module_name attr_name)
                | Some v \<Rightarrow> Inr v))
      | _ \<Rightarrow> Inl (MalformedReference module_path))"

section \<open>The shared build state and the directives\<close>

text \<open>
  \<^verbatim>\<open>env.temp_data\<close> is a dictionary at first; the \<^verbatim>\<open>click\<close> directive replaces it by a
  \<^verbatim>\<open>collections.ChainMap\<close> of a new dictionary and the old value.  A lookup in a chain takes
  the first of its maps that has the key.  The values the directives store and read are a
  command and the name of the program.
\<close>

datatype tval = TCommand command | TStr string

datatype temp_data = Dict "(string \<times> tval) list" | ChainMap "temp_data list"

fun td_get :: "temp_data \<Rightarrow> string \<Rightarrow> tval option" where
  "td_get (Dict items) key = map_of items key"
| "td_get (ChainMap []) key = None"
| "td_get (ChainMap (m # maps)) key =
     (case td_get m key of Some v \<Rightarrow> Some v | None \<Rightarrow> td_get (ChainMap maps) key)"

text \<open>\<^verbatim>\<open>ChainMap(*maps)\<close> keeps \<^verbatim>\<open>list(maps) or [{}]\<close>; \<^verbatim>\<open>parents\<close> is \<^verbatim>\<open>ChainMap(*self.maps[1:])\<close>.\<close>

definition chain_map :: "temp_data list \<Rightarrow> temp_data" where
  "chain_map maps = ChainMap (if maps = [] then [Dict []] else maps)"

fun parents :: "temp_data \<Rightarrow> error + temp_data" where
  "parents (ChainMap maps) = Inr (chain_map (drop 1 maps))"
| "parents (Dict items) = Inl AttributeError"

text \<open>The options of the \<^verbatim>\<open>click\<close> directive, as \<^verbatim>\<open>option_spec\<close> converts them.\<close>

record click_options =
  prog :: "string option"
  show_nested_flag :: bool
  auto_flag :: bool
  commands_option :: "string option"

text \<open>
  \<^verbatim>\<open>ClickDirective.run\<close>: the state of the build goes in and comes out with the result.
  While \<^verbatim>\<open>_generate_nodes\<close> runs, the parser of docutils runs the directives it finds in
  the lines it is given (the help text of a command is among them), and a directive may
  assign \<^verbatim>\<open>env.temp_data\<close>, as the \<^verbatim>\<open>click\<close> directive itself does.  The parser is not part
  of the extension: \<open>parsing\<close> gives, for the value of \<^verbatim>\<open>env.temp_data\<close> that the run has
  assigned, the value it has when \<^verbatim>\<open>_generate_nodes\<close> returns or raises.  The \<^verbatim>\<open>finally\<close>
  clause runs for both outcomes and takes the \<^verbatim>\<open>parents\<close> of the value it finds then; an
  error it raises replaces the outcome of \<^verbatim>\<open>_generate_nodes\<close>.
\<close>

definition click_directive_run ::
  "command importer \<Rightarrow> (temp_data \<Rightarrow> temp_data) \<Rightarrow> string list \<Rightarrow> click_options \<Rightarrow> temp_data
     \<Rightarrow> (error + node list) \<times> temp_data" where
  "click_directive_run importer parsing arguments options temp_data =
     (case arguments of
        [] \<Rightarrow> (Inl IndexError, temp_data)
      | reference # _ \<Rightarrow>
          (case load_module importer reference of
             Inl e \<Rightarrow> (Inl e, temp_data)
           | Inr cmd \<Rightarrow>
               (case prog options of
                  None \<Rightarrow> (Inl MissingProgOption, temp_data)
                | Some prog_name \<Rightarrow>
                    (let show_nested = show_nested_flag options;
                         commands_arg = commands_option options;
                         temp_data = chain_map [Dict [(''click:command'', TCommand cmd),
                                                      (''click:prog'', TStr prog_name)],
                                                temp_data];
                         result = generate_nodes prog_name cmd None show_nested commands_arg;
                         temp_data = parsing temp_data
                     in case parents temp_data of
                          Inl e \<Rightarrow> (Inl e, temp_data)
                        | Inr popped \<Rightarrow> (result, popped)))))"

text \<open>
  \<^verbatim>\<open>ClickOptionsDirective._generate_nodes(prog_name, command)\<close>: an error of
  \<^verbatim>\<open>_format_options\<close> is raised where its lines are read.
\<close>

definition options_generate_nodes :: "string \<Rightarrow> command \<Rightarrow> error + node list" where
  "options_generate_nodes prog_name cmd =
     (let ctx = Context cmd prog_name None;
          source_name = command_path ctx
      in case format_options ctx of
           Inl e \<Rightarrow> Inl e
         | Inr lines \<Rightarrow> Inr [Parsed source_name lines])"

text \<open>
  \<^verbatim>\<open>ClickOptionsDirective.run\<close>.  It reads the state and leaves it as it is.  A value of
  the state that is not of the type the directive stored (a string for the command, a
  command for the program name) passes the test for \<^verbatim>\<open>None\<close> and fails in the rendering,
  where an attribute of it is read.
\<close>

definition click_options_directive_run ::
  "command importer \<Rightarrow> string \<Rightarrow> string list \<Rightarrow> string option \<Rightarrow> temp_data \<Rightarrow> error + node list" where
  "click_options_directive_run importer directive_name arguments prog_option temp_data =
     (case (case arguments of
              reference # _ \<Rightarrow>
                (case load_module importer reference of
                   Inl e \<Rightarrow> Inl e
                 | Inr cmd \<Rightarrow> Inr (Some (TCommand cmd)))
            | [] \<Rightarrow> Inr (td_get temp_data ''click:command'')) of
        Inl e \<Rightarrow> Inl e
      | Inr found \<Rightarrow>
          (let prog_name = (case prog_option of
                              Some p \<Rightarrow> TStr p
                            | None \<Rightarrow> (case td_get temp_data ''click:prog'' of
                                          Some v \<Rightarrow> v
                                        | None \<Rightarrow> TStr []))
           in case found of
                None \<Rightarrow> Inl (MissingContext directive_name)
              | Some (TCommand cmd) \<Rightarrow>
                  (case prog_name of
                     TStr p \<Rightarrow> options_generate_nodes p cmd
                   | TCommand _ \<Rightarrow> Inl AttributeError)
              | Some (TStr _) \<Rightarrow> Inl AttributeError))"

section \<open>Notions for the statements\<close>

text \<open>
  The help text of an option before the annotation is added
  (\<^verbatim>\<open>getattr(opt, 'rich_help', opt.help or '')\<close>), what stands in front of the brackets
  (\<^verbatim>\<open>help and help + '  ' or ''\<close>), and the first component of the record.
\<close>

definition base_help :: "param \<Rightarrow> string option" where
  "base_help opt =
     (case rich_help opt of
        Some rich \<Rightarrow> rich
      | None \<Rightarrow> Some (case help_str opt of Some h \<Rightarrow> h | None \<Rightarrow> []))"

definition help_lead :: "param \<Rightarrow> string" where
  "help_lead opt = (if truthy (base_help opt) then the (base_help opt) @ ''  '' else [])"

definition option_names :: "param \<Rightarrow> string" where
  "option_names opt =
     join '', '' ([write_opts opt (opts opt)]
                  @ (if secondary_opts opt \<noteq> [] then [write_opts opt (secondary_opts opt)] else []))"

text \<open>
  The tree walker as the specification words it, for comparison with \<^const>\<open>generate_nodes\<close>:
  the call for a subcommand passes the filter of the first call on.
\<close>

function generate_nodes_same_filter ::
  "string \<Rightarrow> command \<Rightarrow> click_context option \<Rightarrow> bool \<Rightarrow> string option \<Rightarrow> error + node list" where
  "generate_nodes_same_filter nm cmd parent_ctx show_nested commands_arg =
     (let ctx = Context cmd nm parent_ctx;
          source_name = command_path ctx
      in case format_command ctx show_nested commands_arg of
           Inl e \<Rightarrow> Inl e
         | Inr lines \<Rightarrow>
             (let node = [Parsed source_name lines]
              in if show_nested
                 then (case extend_all
                              (map (\<lambda>sub. generate_nodes_same_filter (name sub) sub (Some ctx)
                                             show_nested commands_arg)
                                   (filter_commands ctx commands_arg)) of
                         Inl e \<Rightarrow> Inl e
                       | Inr children \<Rightarrow> Inr (node @ children))
                 else Inr node))"
  by pat_completeness auto
termination
proof (relation "measure (\<lambda>(nm, cmd, parent_ctx, show_nested, commands_arg). size cmd)")
  show "wf (measure (\<lambda>(nm, cmd, parent_ctx, show_nested, commands_arg). size cmd))" by simp
next
  fix nm cmd parent_ctx show_nested commands_arg ctx sub
  assume ctx: "ctx = Context cmd nm parent_ctx"
    and sub: "sub \<in> set (filter_commands ctx commands_arg)"
  from sub obtain k where "(k, sub) \<in> set (commands (command ctx))"
    using filter_commands_subset by blast
  then have "size sub < size cmd" unfolding ctx by (simp add: subcommand_smaller)
  then show "((name sub, sub, Some ctx, show_nested, commands_arg),
              (nm, cmd, parent_ctx, show_nested, commands_arg))
      \<in> measure (\<lambda>(nm, cmd, parent_ctx, show_nested, commands_arg). size cmd)"
    by simp
qed

declare generate_nodes_same_filter.simps [simp del]

text \<open>
  The contexts of a command and all its descendants in the order of the traversal, the
  subcommands of every command in the order of their names; the rendering of one context
  when subcommands are nested; and the source names of the nodes of a result.
\<close>

function subtree :: "click_context \<Rightarrow> click_context list" where
  "subtree ctx =
     ctx # concat (map (\<lambda>sub. subtree (Context sub (name sub) (Some ctx))) (filter_commands ctx None))"
  by pat_completeness auto
termination
proof (relation "measure (\<lambda>ctx. size (command ctx))")
  show "wf (measure (\<lambda>ctx. size (command ctx)))" by simp
next
  fix ctx sub
  assume "sub \<in> set (filter_commands ctx None)"
  then obtain k where "(k, sub) \<in> set (commands (command ctx))"
    using filter_commands_subset by blast
  then have "size sub < size (command ctx)" by (rule subcommand_smaller)
  then show "(Context sub (name sub) (Some ctx), ctx) \<in> measure (\<lambda>ctx. size (command ctx))"
    by simp
qed

declare subtree.simps [simp del]

definition render_one :: "click_context \<Rightarrow> error + node list" where
  "render_one ctx =
     (case format_command ctx True None of
        Inl e \<Rightarrow> Inl e
      | Inr lines \<Rightarrow> Inr [Parsed (command_path ctx) lines])"

fun rendered_paths :: "error + node list \<Rightarrow> string list" where
  "rendered_paths (Inl e) = []"
| "rendered_paths (Inr ns) = map (\<lambda>n. case n of Parsed source_name lines \<Rightarrow> source_name) ns"

text \<open>
  A section heading as the command renderer writes it (the title, a line of dashes of the
  same length, an empty line), and what a command has to show in a section: an option that
  is not hidden, an argument, a parameter with an environment variable.
\<close>

definition heading :: "string \<Rightarrow> string list" where
  "heading title = [title, replicate (length title) CHR ''-'', []]"

definition has_visible_option :: "command \<Rightarrow> bool" where
  "has_visible_option cmd = list_ex (\<lambda>x. kind x = OptionKind \<and> \<not> hidden x) (params cmd)"

definition has_argument :: "command \<Rightarrow> bool" where
  "has_argument cmd = list_ex (\<lambda>x. kind x = ArgumentKind) (params cmd)"

definition has_envvar :: "command \<Rightarrow> bool" where
  "has_envvar cmd = list_ex (\<lambda>x. truthy (envvar x)) (params cmd)"

text \<open>
  A line as the blocks of options, arguments, environment variables and subcommands have
  them: empty, indented, or a directive (it starts with a dot).
\<close>

definition block_line :: "string \<Rightarrow> bool" where
  "block_line l \<longleftrightarrow> l = [] \<or> is_space (hd l) \<or> hd l = CHR ''.''"

section \<open>Properties of lines and indentation\<close>

lemma linebreak_CR [simp]: "is_linebreak CR"
  by (simp add: is_linebreak_def)

lemma linebreak_LF [simp]: "is_linebreak LF"
  by (simp add: is_linebreak_def)

lemma linebreak_SP [simp]: "\<not> is_linebreak SP"
  by (simp add: is_linebreak_def)

lemma linebreak_is_space: "is_linebreak c \<Longrightarrow> is_space c"
  by (auto simp: is_linebreak_def is_space_def)

lemma strip_empty_iff: "strip l = [] \<longleftrightarrow> list_all is_space l"
proof -
  have "strip l = [] \<longleftrightarrow> (\<forall>c\<in>set (dropWhile is_space l). is_space c)"
    by (simp add: strip_def rstrip_def lstrip_def dropWhile_eq_Nil_conv)
  also have "\<dots> \<longleftrightarrow> dropWhile is_space l = []"
  proof
    assume a: "\<forall>c\<in>set (dropWhile is_space l). is_space c"
    show "dropWhile is_space l = []"
    proof (rule ccontr)
      assume n: "dropWhile is_space l \<noteq> []"
      then have "\<not> is_space (hd (dropWhile is_space l))" by (rule hd_dropWhile)
      moreover have "hd (dropWhile is_space l) \<in> set (dropWhile is_space l)"
        using n by simp
      ultimately show False using a by blast
    qed
  qed (auto dest: set_dropWhileD)
  also have "\<dots> \<longleftrightarrow> list_all is_space l"
    by (simp add: dropWhile_eq_Nil_conv list_all_iff)
  finally show ?thesis .
qed

lemma is_eol_cases:
  "is_eol e \<longleftrightarrow> (\<exists>c. e = [c] \<and> is_linebreak c) \<or> e = [CR, LF]"
  by (cases e rule: is_eol.cases) auto

lemma splitlines_Nil [simp]: "splitlines k [] = []"
  by (simp add: splitlines.simps)

lemma splitlines_line:
  assumes e: "is_eol (line_ending l)"
    and r: "\<not> (line_ending l = [CR] \<and> r \<noteq> [] \<and> hd r = LF)"
  shows "splitlines True (l @ r) = l # splitlines True r"
proof -
  let ?P = "\<lambda>c. \<not> is_linebreak c"
  have ne: "line_ending l \<noteq> []" using e by (auto simp: is_eol_cases)
  then have ex: "\<exists>x\<in>set l. \<not> ?P x"
    unfolding line_ending_def by (simp add: dropWhile_eq_Nil_conv)
  then obtain x where x: "x \<in> set l" "\<not> ?P x" by blast
  have tw: "takeWhile ?P (l @ r) = takeWhile ?P l"
    using x by (rule takeWhile_append1)
  have dw: "dropWhile ?P (l @ r) = line_ending l @ r"
    unfolding line_ending_def using x by (rule dropWhile_append1)
  have eol: "eol_at (line_ending l @ r) = line_ending l"
    using e r by (cases r) (auto simp: is_eol_cases)
  have "l @ r \<noteq> []" using x by auto
  then have "splitlines True (l @ r) =
      (takeWhile ?P l @ line_ending l) # splitlines True (drop (length (line_ending l)) (line_ending l @ r))"
    by (subst splitlines.simps) (simp add: tw dw eol Let_def)
  then show ?thesis
    by (simp add: line_ending_def)
qed

lemma splitlines_last:
  assumes "l \<noteq> []" and "line_ending l = []"
  shows "splitlines True l = [l]"
proof -
  let ?P = "\<lambda>c. \<not> is_linebreak c"
  have dw: "dropWhile ?P l = []" using assms(2) by (simp add: line_ending_def)
  then have tw: "takeWhile ?P l = l"
    by (metis append_Nil2 takeWhile_dropWhile_id)
  show ?thesis
    using assms(1) by (subst splitlines.simps) (simp add: tw dw Let_def)
qed

lemma lines_ok_nonempty: "lines_ok ls \<Longrightarrow> l \<in> set ls \<Longrightarrow> l \<noteq> []"
  by (induction ls rule: lines_ok.induct) (auto simp: line_ending_def)

lemma splitlines_concat: "lines_ok ls \<Longrightarrow> splitlines True (concat ls) = ls"
proof (induction ls rule: lines_ok.induct)
  case 1
  then show ?case by simp
next
  case (2 l)
  show ?case
  proof (cases "line_ending l = []")
    case True
    with 2 show ?thesis by (simp add: splitlines_last)
  next
    case False
    with 2 have "is_eol (line_ending l)" by simp
    then have "splitlines True (l @ []) = l # splitlines True []"
      by (rule splitlines_line) simp
    then show ?thesis by simp
  qed
next
  case (3 l m ls)
  then have e: "is_eol (line_ending l)"
    and c: "\<not> (line_ending l = [CR] \<and> hd m = LF)"
    and ok: "lines_ok (m # ls)" by simp_all
  have "m \<noteq> []" using ok by (rule lines_ok_nonempty) simp
  then have "hd (concat (m # ls)) = hd m" by simp
  with c have "\<not> (line_ending l = [CR] \<and> concat (m # ls) \<noteq> [] \<and> hd (concat (m # ls)) = LF)"
    by simp
  with e have "splitlines True (l @ concat (m # ls)) = l # splitlines True (concat (m # ls))"
    by (rule splitlines_line)
  with 3 ok show ?case by simp
qed


lemma splitlines_eq_Nil_iff [simp]: "splitlines k s = [] \<longleftrightarrow> s = []"
  by (subst splitlines.simps) (simp add: Let_def)


lemma eol_at_append_drop: "eol_at r @ drop (length (eol_at r)) r = r"
  by (cases r rule: eol_at.cases) auto

lemma eol_at_eq_Nil_iff [simp]: "eol_at r = [] \<longleftrightarrow> r = []"
  by (cases r rule: eol_at.cases) auto

lemma is_eol_eol_at: "r \<noteq> [] \<Longrightarrow> is_linebreak (hd r) \<Longrightarrow> is_eol (eol_at r)"
  by (cases r rule: eol_at.cases) auto

lemma hd_eol_at: "hd (eol_at r) = hd r"
  by (cases r rule: eol_at.cases) auto

lemma rest_head:
  assumes "dropWhile (\<lambda>c. \<not> is_linebreak c) s \<noteq> []"
  shows "is_linebreak (hd (dropWhile (\<lambda>c. \<not> is_linebreak c) s))"
  using hd_dropWhile [OF assms] by simp

lemma eol_at_is_eol:
  "dropWhile (\<lambda>c. \<not> is_linebreak c) s \<noteq> [] \<Longrightarrow>
   is_eol (eol_at (dropWhile (\<lambda>c. \<not> is_linebreak c) s))"
  by (rule is_eol_eol_at) (simp_all add: rest_head del: dropWhile_eq_Nil_conv)

lemma line_ending_eol: "is_eol e \<Longrightarrow> line_ending e = e"
  by (auto simp: is_eol_cases line_ending_def)

lemma line_ending_append:
  "list_all (\<lambda>c. \<not> is_linebreak c) p \<Longrightarrow> line_ending (p @ l) = line_ending l"
  unfolding line_ending_def by (rule dropWhile_append2) (simp add: list_all_iff)

lemma line_ending_first:
  "line_ending (takeWhile (\<lambda>c. \<not> is_linebreak c) s @ eol_at (dropWhile (\<lambda>c. \<not> is_linebreak c) s))
     = eol_at (dropWhile (\<lambda>c. \<not> is_linebreak c) s)"
proof -
  let ?P = "\<lambda>c. \<not> is_linebreak c"
  have a: "line_ending (takeWhile ?P s @ eol_at (dropWhile ?P s)) = line_ending (eol_at (dropWhile ?P s))"
    by (rule line_ending_append) (auto simp: list_all_iff dest: set_takeWhileD)
  show ?thesis
  proof (cases "dropWhile ?P s = []")
    case True
    then have "eol_at (dropWhile ?P s) = []" by (simp only: eol_at.simps)
    with a show ?thesis by (simp add: line_ending_def del: dropWhile_eq_Nil_conv)
  next
    case False
    then have "is_eol (eol_at (dropWhile ?P s))" by (rule eol_at_is_eol)
    then show ?thesis using a by (simp add: line_ending_eol)
  qed
qed

lemma hd_splitlines_keep:
  assumes "s \<noteq> []"
  shows "hd (hd (splitlines True s)) = hd s"
proof -
  let ?P = "\<lambda>c. \<not> is_linebreak c"
  have "hd (takeWhile ?P s @ eol_at (dropWhile ?P s)) = hd s"
  proof (cases s)
    case Nil
    with assms show ?thesis by simp
  next
    case (Cons c cs)
    show ?thesis
    proof (cases "is_linebreak c")
      case True
      then show ?thesis using Cons by (simp add: hd_eol_at)
    next
      case False
      then show ?thesis using Cons by simp
    qed
  qed
  then show ?thesis
    using assms by (subst splitlines.simps) (simp add: Let_def)
qed

lemma rest_shorter:
  assumes "s \<noteq> []"
  shows "length (drop (length (eol_at (dropWhile (\<lambda>c. \<not> is_linebreak c) s)))
            (dropWhile (\<lambda>c. \<not> is_linebreak c) s)) < length s"
proof -
  let ?rest = "dropWhile (\<lambda>c. \<not> is_linebreak c) s"
  show ?thesis
  proof (cases "?rest = []")
    case True
    with assms show ?thesis by (simp del: dropWhile_eq_Nil_conv)
  next
    case False
    then have "0 < length (eol_at ?rest)" by (simp del: dropWhile_eq_Nil_conv)
    then have "length (drop (length (eol_at ?rest)) ?rest) < length ?rest"
      using False by (simp del: dropWhile_eq_Nil_conv)
    also have "\<dots> \<le> length s" by (rule length_dropWhile_le)
    finally show ?thesis .
  qed
qed

lemma lines_ok_splitlines: "lines_ok (splitlines True s)"
proof (induction s rule: length_induct)
  case (1 s)
  let ?P = "\<lambda>c. \<not> is_linebreak c"
  let ?rest = "dropWhile ?P s"
  let ?eol = "eol_at ?rest"
  let ?l = "takeWhile ?P s @ ?eol"
  let ?s' = "drop (length ?eol) ?rest"
  show ?case
  proof (cases "s = []")
    case True
    then show ?thesis by simp
  next
    case False
    then have unf: "splitlines True s = ?l # splitlines True ?s'"
      by (subst splitlines.simps) (simp add: Let_def)
    have le: "line_ending ?l = ?eol" by (rule line_ending_first)
    have lne: "?l \<noteq> []"
    proof
      assume "?l = []"
      then have "takeWhile ?P s = [] \<and> ?rest = []"
        by (simp only: append_is_Nil_conv eol_at_eq_Nil_iff)
      then have "takeWhile ?P s @ ?rest = []"
        by (simp only: append_Nil)
      then show False using False unfolding takeWhile_dropWhile_id by simp
    qed
    show ?thesis
    proof (cases "?s' = []")
      case True
      have "?eol = [] \<or> is_eol ?eol"
        using eol_at_is_eol [of s] by (cases "?rest = []") (simp_all del: dropWhile_eq_Nil_conv)
      with lne show ?thesis unfolding unf True splitlines_Nil lines_ok.simps le by blast
    next
      case s': False
      have rne: "?rest \<noteq> []"
      proof
        assume "?rest = []"
        then have "?s' = []" by (simp only: drop_Nil)
        with s' show False by simp
      qed
      then have eol: "is_eol ?eol" by (rule eol_at_is_eol)
      have "length ?s' < length s" using False by (rule rest_shorter)
      with 1 have ih: "lines_ok (splitlines True ?s')" by blast
      obtain m ms where m: "splitlines True ?s' = m # ms"
        using s' by (cases "splitlines True ?s'") auto
      have hdm: "hd m = hd ?s'"
        using hd_splitlines_keep [OF s'] m by simp
      have nocr: "\<not> (?eol = [CR] \<and> hd ?s' = LF)"
      proof
        assume a: "?eol = [CR] \<and> hd ?s' = LF"
        obtain c cs where cs: "?rest = c # cs" using rne by (cases ?rest) auto
        have c: "c = CR" using a unfolding cs by (cases cs) (auto split: if_splits)
        have "cs \<noteq> []" "hd cs = LF" using a s' unfolding cs by auto
        then obtain ds where "cs = LF # ds" by (cases cs) auto
        then have "?eol = [CR, LF]" unfolding cs c by simp
        with a show False by simp
      qed
      have "lines_ok (?l # m # ms)"
        using eol ih [unfolded m] nocr [folded hdm] by (simp add: le)
      then show ?thesis unfolding unf m .
    qed
  qed
qed

lemma splitlines_roundtrip: "concat (splitlines True s) = s"
proof (induction s rule: length_induct)
  case (1 s)
  let ?P = "\<lambda>c. \<not> is_linebreak c"
  let ?rest = "dropWhile ?P s"
  let ?eol = "eol_at ?rest"
  let ?s' = "drop (length ?eol) ?rest"
  show ?case
  proof (cases "s = []")
    case True
    then show ?thesis by simp
  next
    case False
    then have unf: "splitlines True s = (takeWhile ?P s @ ?eol) # splitlines True ?s'"
      by (subst splitlines.simps) (simp add: Let_def)
    have pre: "?eol @ ?s' = ?rest" by (rule eol_at_append_drop)
    have "length ?s' < length s" using False by (rule rest_shorter)
    with 1 have "concat (splitlines True ?s') = ?s'" by blast
    then have "concat (splitlines True s) = takeWhile ?P s @ (?eol @ ?s')"
      unfolding unf by simp
    then show ?thesis unfolding pre by simp
  qed
qed


lemma lines_ok_map_prefix:
  assumes p: "list_all (\<lambda>c. \<not> is_linebreak c) p"
    and f: "\<And>l. f l = l \<or> f l = p @ l"
  shows "lines_ok ls \<Longrightarrow> lines_ok (map f ls)"
proof (induction ls rule: lines_ok.induct)
  case 1
  then show ?case by simp
next
  case (2 l)
  have "line_ending (f l) = line_ending l"
    using f [of l] line_ending_append [OF p, of l] by auto
  moreover have "f l \<noteq> []" using 2 f [of l] by auto
  ultimately show ?case using 2 by simp
next
  case (3 l m ls)
  have le: "line_ending (f l) = line_ending l"
    using f [of l] line_ending_append [OF p, of l] by auto
  have mne: "m \<noteq> []" using 3(2) lines_ok_nonempty [of "m # ls" m] by simp
  have hd: "hd (f m) = LF \<Longrightarrow> hd m = LF"
  proof -
    assume a: "hd (f m) = LF"
    show "hd m = LF"
    proof (cases "f m = m")
      case True
      with a show ?thesis by simp
    next
      case False
      with f [of m] have fm: "f m = p @ m" by simp
      show ?thesis
      proof (cases p)
        case Nil
        with fm a show ?thesis by simp
      next
        case (Cons c cs)
        with p have "\<not> is_linebreak c" by simp
        moreover from fm a Cons have "c = LF" by simp
        ultimately show ?thesis by simp
      qed
    qed
  qed
  from 3 have "lines_ok (map f (m # ls))" by simp
  with 3(2) hd show ?case by (auto simp: le)
qed

lemma splitlines_indent:
  "splitlines True (indent text level) = prefixed_lines text (replicate (nat (4 * level)) SP)"
proof -
  let ?p = "replicate (nat (4 * level)) SP"
  let ?f = "\<lambda>line. if strip line \<noteq> [] then ?p @ line else line"
  have "lines_ok (map ?f (splitlines True text))"
  proof (rule lines_ok_map_prefix)
    show "list_all (\<lambda>c. \<not> is_linebreak c) ?p" by (simp add: list_all_iff)
    show "\<And>l. ?f l = l \<or> ?f l = ?p @ l" by simp
    show "lines_ok (splitlines True text)" by (rule lines_ok_splitlines)
  qed
  then have "splitlines True (concat (map ?f (splitlines True text))) = map ?f (splitlines True text)"
    by (rule splitlines_concat)
  then show ?thesis by (simp add: indent_def prefixed_lines_def)
qed

lemma prefixed_lines_blank:
  "prefixed_lines text prefix =
     map (\<lambda>line. if list_all is_space line then line else prefix @ line) (splitlines True text)"
  by (simp add: prefixed_lines_def strip_empty_iff)

text \<open>
  Claim C8.  The lines of the indented text are, in order, the lines of the text, where every
  line that is not blank has gained exactly \<open>4 * level\<close> spaces in front and every blank line
  (\<^verbatim>\<open>line.strip()\<close> is empty: all its characters are whitespace) is the same line as before;
  a line of the result is blank exactly when the line it comes from is.  This holds for
  every level, so for the levels 1 and 2 with the prefixes of 4 and 8 spaces.
\<close>

theorem indent_prefixes_nonblank_lines:
  "splitlines True (indent text level) =
     map (\<lambda>line. if list_all is_space line then line else replicate (nat (4 * level)) SP @ line)
         (splitlines True text)
   \<and> map (list_all is_space) (splitlines True (indent text level)) =
     map (list_all is_space) (splitlines True text)
   \<and> splitlines True (indent text 1) =
     map (\<lambda>line. if list_all is_space line then line else ''    '' @ line) (splitlines True text)
   \<and> splitlines True (indent text 2) =
     map (\<lambda>line. if list_all is_space line then line else ''        '' @ line) (splitlines True text)"
proof -
  have gen: "splitlines True (indent text k) =
     map (\<lambda>line. if list_all is_space line then line else replicate (nat (4 * k)) SP @ line)
         (splitlines True text)" for k
    by (simp only: splitlines_indent prefixed_lines_blank)
  have blank: "map (list_all is_space) (splitlines True (indent text level)) =
     map (list_all is_space) (splitlines True text)"
    unfolding gen by (simp add: comp_def)
  have r4: "replicate (nat (4 * 1)) SP = ''    ''"
    by (simp add: numeral_eq_Suc)
  have r8: "replicate (nat (4 * 2)) SP = ''        ''"
    by (simp add: numeral_eq_Suc)
  from gen [of level] blank gen [of 1] gen [of 2] show ?thesis
    unfolding r4 r8 by blast
qed

theorem indent_prefixes_nonblank_lines_witness:
  "splitlines True (indent (''a'' @ [LF, LF] @ ''  b c'' @ [LF]) 2) =
     [''        a'' @ [LF], [LF], ''          b c'' @ [LF]]
   \<and> splitlines True (indent (''a'' @ [LF, LF] @ ''  b c'' @ [LF]) 1) =
     [''    a'' @ [LF], [LF], ''      b c'' @ [LF]]"
proof -
  let ?t = "''a'' @ [LF, LF] @ ''  b c'' @ [LF]"
  have lines: "splitlines True ?t = [''a'' @ [LF], [LF], ''  b c'' @ [LF]]"
    by (simp add: splitlines.simps is_linebreak_def Let_def)
  have two: "map (\<lambda>line. if list_all is_space line then line else ''        '' @ line)
               (splitlines True ?t) = [''        a'' @ [LF], [LF], ''          b c'' @ [LF]]"
    unfolding lines by (simp add: is_space_def)
  have one: "map (\<lambda>line. if list_all is_space line then line else ''    '' @ line)
               (splitlines True ?t) = [''    a'' @ [LF], [LF], ''      b c'' @ [LF]]"
    unfolding lines by (simp add: is_space_def)
  note th = indent_prefixes_nonblank_lines [of ?t 2]
  from th have a: "splitlines True (indent ?t 2) =
      map (\<lambda>line. if list_all is_space line then line else ''        '' @ line) (splitlines True ?t)"
    by blast
  from th have b: "splitlines True (indent ?t 1) =
      map (\<lambda>line. if list_all is_space line then line else ''    '' @ line) (splitlines True ?t)"
    by blast
  show ?thesis
    using trans [OF a two] trans [OF b one] by (rule conjI)
qed

text \<open>
  Claim C9.  Indentation keeps the number of lines and the ending of every line (none,
  one line-break character, or \<^verbatim>\<open>\r\n\<close>); a line of whitespace only (spaces, tabs, its line
  ending) is returned as it is, like the empty line; and every line of the result is the
  line it comes from behind a prefix of spaces, so nothing but the front of a line changes.
\<close>

theorem indent_keeps_line_structure:
  "length (splitlines True (indent text level)) = length (splitlines True text)
   \<and> (\<forall>i < length (splitlines True text).
        line_ending (splitlines True (indent text level) ! i) = line_ending (splitlines True text ! i)
        \<and> (list_all is_space (splitlines True text ! i) \<longrightarrow>
             splitlines True (indent text level) ! i = splitlines True text ! i)
        \<and> (\<exists>n. splitlines True (indent text level) ! i = replicate n SP @ splitlines True text ! i))"
proof -
  let ?p = "replicate (nat (4 * level)) SP"
  let ?f = "\<lambda>line. if strip line \<noteq> [] then ?p @ line else line"
  have eq: "splitlines True (indent text level) = map ?f (splitlines True text)"
    by (simp only: splitlines_indent prefixed_lines_def)
  have p: "list_all (\<lambda>c. \<not> is_linebreak c) ?p"
    by (simp add: list_all_iff)
  have le: "line_ending (?f l) = line_ending l" for l
    using line_ending_append [OF p, of l] by simp
  have blank: "list_all is_space l \<Longrightarrow> ?f l = l" for l
    by (simp add: strip_empty_iff)
  have pre: "\<exists>n. ?f l = replicate n SP @ l" for l
  proof (cases "strip l \<noteq> []")
    case True
    then have "?f l = replicate (nat (4 * level)) SP @ l" by simp
    then show ?thesis by blast
  next
    case False
    then have "?f l = replicate 0 SP @ l" by simp
    then show ?thesis by blast
  qed
  show ?thesis
    unfolding eq using le blank pre by (simp del: replicate_eq_replicate)
qed

theorem indent_keeps_line_structure_witness:
  "length (splitlines True (indent (''x'' @ [LF] @ [SP, TAB, CR, LF] @ ''y'') 1)) = 3
   \<and> splitlines True (indent (''x'' @ [LF] @ [SP, TAB, CR, LF] @ ''y'') 1) ! 1 = [SP, TAB, CR, LF]
   \<and> line_ending (splitlines True (indent (''x'' @ [LF] @ [SP, TAB, CR, LF] @ ''y'') 1) ! 0) = [LF]
   \<and> line_ending (splitlines True (indent (''x'' @ [LF] @ [SP, TAB, CR, LF] @ ''y'') 1) ! 2) = []"
proof -
  let ?t = "''x'' @ [LF] @ [SP, TAB, CR, LF] @ ''y''"
  have lines: "splitlines True ?t = [''x'' @ [LF], [SP, TAB, CR, LF], ''y'']"
    by (simp add: splitlines.simps is_linebreak_def Let_def)
  note th = indent_keeps_line_structure [of ?t 1, unfolded lines]
  have len: "length (splitlines True (indent ?t 1)) = 3"
    using th [THEN conjunct1] by simp
  have l0: "line_ending (splitlines True (indent ?t 1) ! 0) = [LF]"
    using th [THEN conjunct2, THEN spec, of 0] by (simp add: line_ending_def is_linebreak_def)
  have l1: "splitlines True (indent ?t 1) ! 1 = [SP, TAB, CR, LF]"
    using th [THEN conjunct2, THEN spec, of 1] by (simp add: is_space_def)
  have l2: "line_ending (splitlines True (indent ?t 1) ! 2) = []"
    using th [THEN conjunct2, THEN spec, of 2] by (simp add: line_ending_def is_linebreak_def)
  from len l1 l0 l2 show ?thesis by blast
qed
section \<open>Subcommand selection\<close>

lemma selected_by_names:
  "concat (map (\<lambda>n. case map_of lk n of Some c \<Rightarrow> [c] | None \<Rightarrow> []) names) =
     map (\<lambda>n. the (map_of lk n)) (filter (\<lambda>n. n \<in> fst ` set lk) names)"
  by (induction names) (auto simp: map_of_eq_None_iff [symmetric] split: option.splits)

text \<open>
  Claim C2.  With an explicit list, the result is the entries of the names between the
  commas (stripped of whitespace around them) that are keys of the subcommand mapping, one
  for each such name in the order of the list; a name that is no key is dropped without
  an error.  Without a list, the result is a permutation of all subcommands, sorted by
  their names (strings ordered by code point), subcommands of the same name in the order
  of the mapping.  The mapping \<open>{a, b, c}\<close> with the list \<^verbatim>\<open>c,x,a\<close> gives \<open>[c, a]\<close>,
  and the mapping \<open>{b, a}\<close> without a list gives \<open>[a, b]\<close>.
\<close>

theorem filter_commands_policy:
  "filter_commands ctx (Some listed) =
     map (\<lambda>n. the (map_of (commands (command ctx)) n))
         (filter (\<lambda>n. n \<in> fst ` set (commands (command ctx))) (map strip (split_on CHR '','' listed)))
   \<and> mset (filter_commands ctx None) = mset (map snd (commands (command ctx)))
   \<and> sorted (map name (filter_commands ctx None))
   \<and> (\<forall>k. filter (\<lambda>c. name c = k) (filter_commands ctx None) =
            filter (\<lambda>c. name c = k) (map snd (commands (command ctx))))
   \<and> (commands (command ctx) = [(''a'', ca), (''b'', cb), (''c'', cc)] \<longrightarrow>
        filter_commands ctx (Some ''c,x,a'') = [cc, ca])
   \<and> (commands (command ctx) = [(''b'', cb), (''a'', ca)] \<and> name ca = ''a'' \<and> name cb = ''b'' \<longrightarrow>
        filter_commands ctx None = [ca, cb])"
proof -
  have explicit: "filter_commands ctx (Some listed) =
     map (\<lambda>n. the (map_of (commands (command ctx)) n))
         (filter (\<lambda>n. n \<in> fst ` set (commands (command ctx))) (map strip (split_on CHR '','' listed)))"
    by (simp add: filter_commands_def selected_by_names Let_def)
  have perm: "mset (filter_commands ctx None) = mset (map snd (commands (command ctx)))"
    by (simp add: filter_commands_def)
  have srt: "sorted (map name (filter_commands ctx None))"
    by (simp add: filter_commands_def)
  have stable: "\<forall>k. filter (\<lambda>c. name c = k) (filter_commands ctx None) =
            filter (\<lambda>c. name c = k) (map snd (commands (command ctx)))"
    by (simp add: filter_commands_def sort_key_stable)
  have strips: "strip ''c'' = ''c''" "strip ''x'' = ''x''" "strip ''a'' = ''a''"
    by (simp_all add: strip_def lstrip_def rstrip_def is_space_def)
  have ex1: "commands (command ctx) = [(''a'', ca), (''b'', cb), (''c'', cc)] \<longrightarrow>
        filter_commands ctx (Some ''c,x,a'') = [cc, ca]"
    by (simp add: filter_commands_def strips Let_def)
  have ex2: "commands (command ctx) = [(''b'', cb), (''a'', ca)] \<and> name ca = ''a'' \<and> name cb = ''b'' \<longrightarrow>
        filter_commands ctx None = [ca, cb]"
    by (simp add: filter_commands_def)
  from explicit perm srt stable ex1 ex2 show ?thesis by blast
qed


theorem filter_commands_policy_witness:
  "filter_commands
     (Context (Command ''cli'' None None [] []
                 [(''a'', Command ''a'' None None [] [] []),
                  (''b'', Command ''b'' None None [] [] []),
                  (''c'', Command ''c'' None None [] [] [])]) ''prog'' None)
     (Some ''c,x,a'')
   = [Command ''c'' None None [] [] [], Command ''a'' None None [] [] []]
   \<and> filter_commands
     (Context (Command ''cli'' None None [] []
                 [(''b'', Command ''b'' None None [] [] []),
                  (''a'', Command ''a'' None None [] [] [])]) ''prog'' None)
     None
   = [Command ''a'' None None [] [] [], Command ''b'' None None [] [] []]"
proof -
  let ?a = "Command ''a'' None None [] [] []"
  let ?b = "Command ''b'' None None [] [] []"
  let ?c = "Command ''c'' None None [] [] []"
  let ?abc = "Context (Command ''cli'' None None [] [] [(''a'', ?a), (''b'', ?b), (''c'', ?c)]) ''prog'' None"
  let ?ba = "Context (Command ''cli'' None None [] [] [(''b'', ?b), (''a'', ?a)]) ''prog'' None"
  have one: "filter_commands ?abc (Some ''c,x,a'') = [?c, ?a]"
    using filter_commands_policy [where ctx = ?abc and listed = "[]" and ca = ?a and cb = ?b and cc = ?c]
    by simp
  have two: "filter_commands ?ba None = [?a, ?b]"
    using filter_commands_policy [where ctx = ?ba and listed = "[]" and ca = ?a and cb = ?b and cc = ?c]
    by simp
  from one two show ?thesis by (rule conjI)
qed

section \<open>The annotation of an option\<close>

lemma str_of_int_1: "str_of_int 1 = ''1''"
  by code_simp

lemma str_of_int_2: "str_of_int 2 = ''2''"
  by code_simp

text \<open>
  What \<^const>\<open>get_help_record\<close> returns, by the default of the option.  Without a shown
  default the annotation is \<^verbatim>\<open>[required]\<close> or there is none; the shown default of one value
  is its text; the shown default of a sequence is the texts of its elements joined by a
  comma when \<^verbatim>\<open>'%s' % d\<close> returns for every element, and the error of the first element
  for which it raises otherwise.
\<close>

lemma help_record_no_default:
  assumes "default_val opt = None \<or> \<not> show_default opt"
  shows "get_help_record opt =
     Inr (option_names opt,
          if required opt then Some (help_lead opt @ ''[required]'') else base_help opt)"
proof -
  from assms have no: "(default_val opt \<noteq> None \<and> show_default opt) = False" by auto
  show ?thesis
    unfolding get_help_record_def Let_def option_names_def help_lead_def base_help_def no
    by simp
qed

lemma help_record_scalar:
  assumes "default_val opt = Some (Scalar d)" and "show_default opt"
  shows "get_help_record opt =
     Inr (option_names opt,
          Some (help_lead opt @ ''[default: '' @ py_str d
                @ (if required opt then ''; required]'' else '']'')))"
  using assms
  by (simp add: get_help_record_def Let_def option_names_def help_lead_def base_help_def)

lemma help_record_sequence:
  assumes "default_val opt = Some (Sequence ds)" and "show_default opt"
  shows "get_help_record opt =
     (case collect (map percent_s ds) of
        Inl e \<Rightarrow> Inl e
      | Inr texts \<Rightarrow>
          Inr (option_names opt,
               Some (help_lead opt @ ''[default: '' @ join '', '' texts
                     @ (if required opt then ''; required]'' else '']''))))"
  using assms
  by (simp add: get_help_record_def Let_def option_names_def help_lead_def base_help_def
      split: sum.splits)

lemma collect_percent_s_plain: "collect (map percent_s (map Plain vs)) = Inr (map py_str vs)"
  by (induction vs) simp_all

lemma percent_s_fails: "(\<exists>e. percent_s d = Inl e) \<longleftrightarrow> (\<exists>vs. d = PyTuple vs \<and> length vs \<noteq> 1)"
  by (cases d rule: percent_s.cases) simp_all

lemma collect_fails: "(\<exists>e. collect rs = Inl e) \<longleftrightarrow> (\<exists>r \<in> set rs. \<exists>e. r = Inl e)"
  by (induction rs) (auto split: sum.splits)

lemma some_percent_s_fails:
  "(\<exists>x \<in> set ds. \<exists>e. percent_s x = Inl e) \<longleftrightarrow> (\<exists>vs. PyTuple vs \<in> set ds \<and> length vs \<noteq> 1)"
proof
  assume "\<exists>x \<in> set ds. \<exists>e. percent_s x = Inl e"
  then obtain x where x: "x \<in> set ds" and "\<exists>e. percent_s x = Inl e" by (rule bexE)
  then have "\<exists>vs. x = PyTuple vs \<and> length vs \<noteq> 1" by (simp only: percent_s_fails)
  then obtain vs where "x = PyTuple vs" and "length vs \<noteq> 1" by (elim exE conjE)
  with x show "\<exists>vs. PyTuple vs \<in> set ds \<and> length vs \<noteq> 1" by (intro exI [of _ vs]) simp
next
  assume "\<exists>vs. PyTuple vs \<in> set ds \<and> length vs \<noteq> 1"
  then obtain vs where mem: "PyTuple vs \<in> set ds" and len: "length vs \<noteq> 1" by (elim exE conjE)
  from len have "\<exists>ws. PyTuple vs = PyTuple ws \<and> length ws \<noteq> 1" by (intro exI [of _ vs]) simp
  then have "\<exists>e. percent_s (PyTuple vs) = Inl e" by (simp only: percent_s_fails)
  with mem show "\<exists>x \<in> set ds. \<exists>e. percent_s x = Inl e" by (rule bexI [rotated])
qed

lemma help_record_fails:
  "(\<exists>e. get_help_record opt = Inl e) \<longleftrightarrow>
     show_default opt
     \<and> (\<exists>ds vs. default_val opt = Some (Sequence ds) \<and> PyTuple vs \<in> set ds \<and> length vs \<noteq> 1)"
  (is "?fails \<longleftrightarrow> ?tuple")
proof (cases "default_val opt = None \<or> \<not> show_default opt")
  case True
  then have "get_help_record opt =
     Inr (option_names opt,
          if required opt then Some (help_lead opt @ ''[required]'') else base_help opt)"
    by (rule help_record_no_default)
  then have "\<not> ?fails" by simp
  moreover from True have "\<not> ?tuple" by auto
  ultimately show ?thesis by simp
next
  case False
  then obtain d where d: "default_val opt = Some d" and sh: "show_default opt" by auto
  show ?thesis
  proof (cases d)
    case (Scalar v)
    with d have dv: "default_val opt = Some (Scalar v)" by simp
    have "\<not> ?fails" by (simp add: help_record_scalar [OF dv sh])
    moreover from dv have "\<not> ?tuple" by simp
    ultimately show ?thesis by simp
  next
    case (Sequence ds)
    with d have dv: "default_val opt = Some (Sequence ds)" by simp
    have "?fails \<longleftrightarrow> (\<exists>e. collect (map percent_s ds) = Inl e)"
      by (simp add: help_record_sequence [OF dv sh] split: sum.splits)
    also have "\<dots> \<longleftrightarrow> (\<exists>x \<in> set ds. \<exists>e. percent_s x = Inl e)"
      by (simp add: collect_fails)
    also have "\<dots> \<longleftrightarrow> (\<exists>vs. PyTuple vs \<in> set ds \<and> length vs \<noteq> 1)"
      by (rule some_percent_s_fails)
    also have "\<dots> \<longleftrightarrow> ?tuple"
      using dv sh by simp
    finally show ?thesis .
  qed
qed

text \<open>
  Claim C3 on the code.  For an option whose shown default is a sequence of values that
  are no tuples the annotation is as the claim says: \<^verbatim>\<open>[default: 1, 2]\<close> for the default
  \<^verbatim>\<open>[1, 2]\<close>.  For the default \<^verbatim>\<open>[(1, 2), (3, 4)]\<close>, the default of an option with
  \<^verbatim>\<open>nargs=2, multiple=True\<close>, the function returns no annotation: \<^verbatim>\<open>'%s' % d\<close> raises
  \<^verbatim>\<open>TypeError\<close> for the first element, and so do the renderer of the options and the
  renderer of the command.  The elements of the default \<^verbatim>\<open>[(1,), (2,)]\<close> lose their
  parentheses.  The text of a default that is no sequence is formatted with
  \<^verbatim>\<open>'default: %s' % (opt.default, )\<close>, the value wrapped in a tuple of its own.
\<close>

theorem help_record_tuple_default_raises:
  "get_help_record
      \<lparr>kind = OptionKind, opts = [''--point''], secondary_opts = [], is_flag = False,
       count_flag = False, metavar = ''<point>'', help_str = None, rich_help = None,
       default_val = Some (Sequence [PyTuple [PyInt 1, PyInt 2], PyTuple [PyInt 3, PyInt 4]]),
       show_default = True, required = False,
       hidden = False, envvar = None, human_readable_name = ''point'', nargs = 2\<rparr>
     = Inl (TypeError ''not all arguments converted during string formatting'')
   \<and> format_command
       (Context (Command ''cli'' None None [] 
          [\<lparr>kind = OptionKind, opts = [''--point''], secondary_opts = [], is_flag = False,
            count_flag = False, metavar = ''<point>'', help_str = None, rich_help = None,
            default_val = Some (Sequence [PyTuple [PyInt 1, PyInt 2], PyTuple [PyInt 3, PyInt 4]]),
            show_default = True, required = False,
            hidden = False, envvar = None, human_readable_name = ''point'', nargs = 2\<rparr>] [])
          ''prog'' None)
       False None
     = Inl (TypeError ''not all arguments converted during string formatting'')
   \<and> get_help_record
      \<lparr>kind = OptionKind, opts = [''--point''], secondary_opts = [], is_flag = False,
       count_flag = False, metavar = ''<point>'', help_str = None, rich_help = None,
       default_val = Some (Sequence [Plain (PyInt 1), Plain (PyInt 2)]),
       show_default = True, required = False,
       hidden = False, envvar = None, human_readable_name = ''point'', nargs = 2\<rparr>
     = Inr (''--point <point>'', Some ''[default: 1, 2]'')
   \<and> get_help_record
      \<lparr>kind = OptionKind, opts = [''--point''], secondary_opts = [], is_flag = False,
       count_flag = False, metavar = ''<point>'', help_str = None, rich_help = None,
       default_val = Some (Sequence [PyTuple [PyInt 1], PyTuple [PyInt 2]]),
       show_default = True, required = False,
       hidden = False, envvar = None, human_readable_name = ''point'', nargs = 1\<rparr>
     = Inr (''--point <point>'', Some ''[default: 1, 2]'')"
proof -
  let ?opt = "\<lambda>d n. \<lparr>kind = OptionKind, opts = [''--point''], secondary_opts = [], is_flag = False,
       count_flag = False, metavar = ''<point>'', help_str = None, rich_help = None,
       default_val = Some (Sequence d), show_default = True, required = False,
       hidden = False, envvar = None, human_readable_name = ''point'', nargs = n\<rparr>"
  let ?pairs = "[PyTuple [PyInt 1, PyInt 2], PyTuple [PyInt 3, PyInt 4]]"
  have names: "option_names (?opt d n) = ''--point <point>''" for d n
    by code_simp
  have raises: "get_help_record (?opt ?pairs 2)
      = Inl (TypeError ''not all arguments converted during string formatting'')"
    by (simp add: help_record_sequence)
  have command: "format_command (Context (Command ''cli'' None None [] [?opt ?pairs 2] []) ''prog'' None)
        False None
      = Inl (TypeError ''not all arguments converted during string formatting'')"
    by (simp add: format_command_def Let_def format_options_def format_option_def raises)
  have plain: "get_help_record (?opt [Plain (PyInt 1), Plain (PyInt 2)] 2)
      = Inr (''--point <point>'', Some ''[default: 1, 2]'')"
    by (simp add: help_record_sequence names help_lead_def base_help_def str_of_int_1 str_of_int_2)
  have single: "get_help_record (?opt [PyTuple [PyInt 1], PyTuple [PyInt 2]] 1)
      = Inr (''--point <point>'', Some ''[default: 1, 2]'')"
    by (simp add: help_record_sequence names help_lead_def base_help_def str_of_int_1 str_of_int_2)
  from raises command plain single show ?thesis by blast
qed

section \<open>The module resolver: which error for which reference\<close>

lemma split_first_colon:
  assumes m: "CHR '':'' \<notin> set m"
  shows "split_max CHR '':'' (Suc 0) (m @ CHR '':'' # a) = [m, a]"
proof -
  have "takeWhile (\<lambda>c. c \<noteq> CHR '':'') (m @ CHR '':'' # a)
      = m @ takeWhile (\<lambda>c. c \<noteq> CHR '':'') (CHR '':'' # a)"
    by (rule takeWhile_append2) (use m in auto)
  then have tw: "takeWhile (\<lambda>c. c \<noteq> CHR '':'') (m @ CHR '':'' # a) = m" by simp
  have "dropWhile (\<lambda>c. c \<noteq> CHR '':'') (m @ CHR '':'' # a)
      = dropWhile (\<lambda>c. c \<noteq> CHR '':'') (CHR '':'' # a)"
    by (rule dropWhile_append2) (use m in auto)
  then have dw: "dropWhile (\<lambda>c. c \<noteq> CHR '':'') (m @ CHR '':'' # a) = CHR '':'' # a" by simp
  show ?thesis by (simp add: tw dw)
qed

lemma load_module_parts:
  "CHR '':'' \<notin> set m \<Longrightarrow>
   load_module imp (m @ CHR '':'' # a) =
     (case imp m [a] of
        ImportRaises exc \<Rightarrow> Inl (ImportFailure a m exc)
      | Imported module \<Rightarrow>
          (case module a of None \<Rightarrow> Inl (AttributeMissing m a) | Some v \<Rightarrow> Inr v))"
  by (simp add: load_module_def split_first_colon del: split_max.simps)

lemma load_module_no_colon:
  "CHR '':'' \<notin> set s \<Longrightarrow> load_module imp s = Inl (MalformedReference s)"
  by (simp add: load_module_def)

lemma colon_decompose:
  "CHR '':'' \<in> set s \<Longrightarrow> \<exists>m a. s = m @ CHR '':'' # a \<and> CHR '':'' \<notin> set m"
  by (meson split_list_first)

lemma load_module_not_malformed:
  assumes "CHR '':'' \<in> set s"
  shows "load_module imp s \<noteq> Inl (MalformedReference x)"
proof -
  from assms obtain m a where s: "s = m @ CHR '':'' # a" and m: "CHR '':'' \<notin> set m"
    using colon_decompose by blast
  show ?thesis
    unfolding s load_module_parts [OF m]
    by (simp split: import_outcome.splits option.splits)
qed

text \<open>
  Claim C4.  A reference without a colon fails with \<open>MalformedReference\<close>, whose message
  says that it is not of format \<^verbatim>\<open>"module:parser"\<close>.  A reference \<open>m:a\<close>, split at its first
  colon, fails with \<open>ImportFailure\<close> when the import of \<open>m\<close> raises; the message names
  \<^verbatim>\<open>sys.exit()\<close> when the exception is \<^verbatim>\<open>SystemExit\<close> and carries the traceback otherwise,
  and the two messages differ.  When the import returns a module without the attribute
  \<open>a\<close>, the reference fails with \<open>AttributeMissing\<close>, whose message holds \<open>m\<close> and \<open>a\<close> as
  they are.  Otherwise the value of the attribute is returned.
\<close>

theorem load_module_outcomes:
  "(CHR '':'' \<notin> set s \<longrightarrow> load_module imp s = Inl (MalformedReference s))
   \<and> error_message (MalformedReference s) =
       [DQ] @ s @ [DQ] @ '' is not of format '' @ [DQ] @ ''module:parser'' @ [DQ]
   \<and> (CHR '':'' \<notin> set m \<and> imp m [a] = ImportRaises exc \<longrightarrow>
        load_module imp (m @ '':'' @ a) = Inl (ImportFailure a m exc))
   \<and> error_message (ImportFailure a m SystemExit) =
       ''Failed to import '' @ [DQ] @ a @ [DQ] @ '' from '' @ [DQ] @ m @ [DQ] @ ''. ''
         @ ''The module appeared to call sys.exit()''
   \<and> error_message (ImportFailure a m (Raised traceback)) =
       ''Failed to import '' @ [DQ] @ a @ [DQ] @ '' from '' @ [DQ] @ m @ [DQ] @ ''. ''
         @ ''The following exception was raised:'' @ [LF] @ traceback
   \<and> error_message (ImportFailure a m SystemExit) \<noteq> error_message (ImportFailure a m (Raised traceback))
   \<and> (CHR '':'' \<notin> set m \<and> imp m [a] = Imported module \<and> module a = None \<longrightarrow>
        load_module imp (m @ '':'' @ a) = Inl (AttributeMissing m a))
   \<and> error_message (AttributeMissing m a) =
       ''Module '' @ [DQ] @ m @ [DQ] @ '' has no attribute '' @ [DQ] @ a @ [DQ]
   \<and> (CHR '':'' \<notin> set m \<and> imp m [a] = Imported module \<and> module a = Some v \<longrightarrow>
        load_module imp (m @ '':'' @ a) = Inr v)"
  by (simp add: load_module_parts load_module_no_colon)

theorem load_module_outcomes_witness:
  "load_module
     (\<lambda>m fromlist. if m = ''pkg.mod'' then Imported [''cli'' \<mapsto> Command ''cli'' None None [] [] []]
                    else if m = ''exits'' then ImportRaises SystemExit
                    else ImportRaises (Raised ''ModuleNotFoundError''))
     ''pkg.mod'' = Inl (MalformedReference ''pkg.mod'')
   \<and> load_module
     (\<lambda>m fromlist. if m = ''pkg.mod'' then Imported [''cli'' \<mapsto> Command ''cli'' None None [] [] []]
                    else if m = ''exits'' then ImportRaises SystemExit
                    else ImportRaises (Raised ''ModuleNotFoundError''))
     ''exits:cli'' = Inl (ImportFailure ''cli'' ''exits'' SystemExit)
   \<and> load_module
     (\<lambda>m fromlist. if m = ''pkg.mod'' then Imported [''cli'' \<mapsto> Command ''cli'' None None [] [] []]
                    else if m = ''exits'' then ImportRaises SystemExit
                    else ImportRaises (Raised ''ModuleNotFoundError''))
     ''pkg.mod:thing'' = Inl (AttributeMissing ''pkg.mod'' ''thing'')
   \<and> load_module
     (\<lambda>m fromlist. if m = ''pkg.mod'' then Imported [''cli'' \<mapsto> Command ''cli'' None None [] [] []]
                    else if m = ''exits'' then ImportRaises SystemExit
                    else ImportRaises (Raised ''ModuleNotFoundError''))
     ''pkg.mod:cli'' = Inr (Command ''cli'' None None [] [] [])"
proof -
  let ?cli = "Command ''cli'' None None [] [] []"
  let ?imp = "\<lambda>m fromlist. if m = ''pkg.mod'' then Imported [''cli'' \<mapsto> ?cli]
                    else if m = ''exits'' then ImportRaises SystemExit
                    else ImportRaises (Raised ''ModuleNotFoundError'') :: command import_outcome"
  have malformed: "load_module ?imp ''pkg.mod'' = Inl (MalformedReference ''pkg.mod'')"
    using load_module_outcomes [where imp = ?imp and s = "''pkg.mod''", THEN conjunct1] by simp
  have exits: "load_module ?imp ''exits:cli'' = Inl (ImportFailure ''cli'' ''exits'' SystemExit)"
    using load_module_outcomes [where imp = ?imp and m = "''exits''" and a = "''cli''" and exc = SystemExit]
    by simp
  have missing: "load_module ?imp ''pkg.mod:thing'' = Inl (AttributeMissing ''pkg.mod'' ''thing'')"
    using load_module_outcomes [where imp = ?imp and m = "''pkg.mod''" and a = "''thing''"
        and module = "[''cli'' \<mapsto> ?cli]"]
    by simp
  have found: "load_module ?imp ''pkg.mod:cli'' = Inr ?cli"
    using load_module_outcomes [where imp = ?imp and m = "''pkg.mod''" and a = "''cli''"
        and module = "[''cli'' \<mapsto> ?cli]" and v = ?cli]
    by simp
  from malformed exits missing found show ?thesis by blast
qed

text \<open>
  Claim C10.  The reference is malformed exactly when it has no colon.  A reference \<open>m:\<close>
  with the empty attribute name goes on to the import of \<open>m\<close> and to the lookup of the
  attribute: when the import returns a module (one that has no attribute of the empty
  name) it fails with \<open>AttributeMissing\<close>.  A reference \<open>:a\<close> with the empty module path
  goes on to the import of the empty name: when that import raises (CPython raises
  \<^verbatim>\<open>ValueError: Empty module name\<close>) it fails with \<open>ImportFailure\<close>.
\<close>

theorem malformed_exactly_without_colon:
  "((\<exists>x. load_module imp s = Inl (MalformedReference x)) \<longleftrightarrow> CHR '':'' \<notin> set s)
   \<and> (CHR '':'' \<notin> set m \<longrightarrow>
        load_module imp (m @ '':'') =
          (case imp m [[]] of
             ImportRaises exc \<Rightarrow> Inl (ImportFailure [] m exc)
           | Imported module \<Rightarrow>
               (case module [] of None \<Rightarrow> Inl (AttributeMissing m []) | Some v \<Rightarrow> Inr v)))
   \<and> (CHR '':'' \<notin> set m \<and> imp m [[]] = Imported module \<and> module [] = None \<longrightarrow>
        load_module imp (m @ '':'') = Inl (AttributeMissing m []))
   \<and> load_module imp ('':'' @ a) =
        (case imp [] [a] of
           ImportRaises exc \<Rightarrow> Inl (ImportFailure a [] exc)
         | Imported module \<Rightarrow>
             (case module a of None \<Rightarrow> Inl (AttributeMissing [] a) | Some v \<Rightarrow> Inr v))
   \<and> (imp [] [a] = ImportRaises exc \<longrightarrow> load_module imp ('':'' @ a) = Inl (ImportFailure a [] exc))"
proof -
  have iff: "(\<exists>x. load_module imp s = Inl (MalformedReference x)) \<longleftrightarrow> CHR '':'' \<notin> set s"
    using load_module_not_malformed [of s imp] load_module_no_colon [of s imp] by auto
  have e: "load_module imp ('':'' @ a) =
        (case imp [] [a] of
           ImportRaises exc \<Rightarrow> Inl (ImportFailure a [] exc)
         | Imported module \<Rightarrow>
             (case module a of None \<Rightarrow> Inl (AttributeMissing [] a) | Some v \<Rightarrow> Inr v))"
    using load_module_parts [of "[]" imp a] by simp
  show ?thesis
    unfolding iff e by (simp add: load_module_parts)
qed

theorem malformed_exactly_without_colon_witness:
  "load_module
     (\<lambda>m fromlist. if m = ''pkg.mod'' then Imported [''cli'' \<mapsto> Command ''cli'' None None [] [] []]
                    else ImportRaises (Raised ''ValueError: Empty module name''))
     ''pkg.mod:'' = Inl (AttributeMissing ''pkg.mod'' [])
   \<and> load_module
     (\<lambda>m fromlist. if m = ''pkg.mod'' then Imported [''cli'' \<mapsto> Command ''cli'' None None [] [] []]
                    else ImportRaises (Raised ''ValueError: Empty module name''))
     '':cli'' = Inl (ImportFailure ''cli'' [] (Raised ''ValueError: Empty module name''))
   \<and> (\<exists>x. load_module
     (\<lambda>m fromlist. if m = ''pkg.mod'' then Imported [''cli'' \<mapsto> Command ''cli'' None None [] [] []]
                    else ImportRaises (Raised ''ValueError: Empty module name''))
     ''pkg.mod'' = Inl (MalformedReference x))"
proof -
  let ?cli = "Command ''cli'' None None [] [] []"
  let ?imp = "\<lambda>m fromlist. if m = ''pkg.mod'' then Imported [''cli'' \<mapsto> ?cli]
                    else ImportRaises (Raised ''ValueError: Empty module name'') :: command import_outcome"
  have no_attr: "load_module ?imp ''pkg.mod:'' = Inl (AttributeMissing ''pkg.mod'' [])"
    using malformed_exactly_without_colon [where imp = ?imp and m = "''pkg.mod''"
        and module = "[''cli'' \<mapsto> ?cli]"]
    by simp
  have no_module: "load_module ?imp '':cli'' =
      Inl (ImportFailure ''cli'' [] (Raised ''ValueError: Empty module name''))"
    using malformed_exactly_without_colon [where imp = ?imp and a = "''cli''"
        and exc = "Raised ''ValueError: Empty module name''"]
    by simp
  have no_colon: "\<exists>x. load_module ?imp ''pkg.mod'' = Inl (MalformedReference x)"
    using malformed_exactly_without_colon [where imp = ?imp and s = "''pkg.mod''", THEN conjunct1]
    by simp
  from no_attr no_module no_colon show ?thesis by blast
qed


section \<open>The directives and the shared build state\<close>

text \<open>
  Claim C7.  Without an argument the \<^verbatim>\<open>click-options\<close> directive reads the command from
  the shared build state.  When the state has no command it fails with \<open>MissingContext\<close>;
  whenever it returns nodes, the state held a command and the nodes are those of that
  command; with a command in the state it renders that command, under the program name of
  its own option or else the one of the state, and returns what the rendering returns.
\<close>

theorem options_directive_needs_context:
  "(td_get td ''click:command'' = None \<longrightarrow>
      click_options_directive_run imp dname [] prog_option td = Inl (MissingContext dname))
   \<and> (click_options_directive_run imp dname [] prog_option td = Inr nodes \<longrightarrow>
        (\<exists>cmd p. td_get td ''click:command'' = Some (TCommand cmd)
                 \<and> options_generate_nodes p cmd = Inr nodes))
   \<and> (td_get td ''click:command'' = Some (TCommand cmd) \<and> prog_option = Some p \<longrightarrow>
        click_options_directive_run imp dname [] prog_option td = options_generate_nodes p cmd)
   \<and> (td_get td ''click:command'' = Some (TCommand cmd) \<and> prog_option = None
        \<and> td_get td ''click:prog'' = Some (TStr p) \<longrightarrow>
        click_options_directive_run imp dname [] prog_option td = options_generate_nodes p cmd)
   \<and> error_message (MissingContext dname) =
        ''The '' @ dname @ '' directive can only be used within a `click` directive.''"
  by (auto simp: click_options_directive_run_def Let_def split: option.splits tval.splits)

theorem options_directive_needs_context_witness:
  "click_options_directive_run (\<lambda>m fromlist. ImportRaises SystemExit) ''click-options'' [] None (Dict [])
     = Inl (MissingContext ''click-options'')
   \<and> click_options_directive_run (\<lambda>m fromlist. ImportRaises SystemExit) ''click-options'' [] None
       (ChainMap [Dict [(''click:command'', TCommand (Command ''cli'' None None [] [] [])),
                        (''click:prog'', TStr ''prog'')],
                  Dict []])
     = Inr [Parsed ''prog'' []]"
proof -
  let ?imp = "\<lambda>m fromlist. ImportRaises SystemExit :: command import_outcome"
  let ?cli = "Command ''cli'' None None [] [] []"
  let ?td = "ChainMap [Dict [(''click:command'', TCommand ?cli), (''click:prog'', TStr ''prog'')], Dict []]"
  have absent: "click_options_directive_run ?imp ''click-options'' [] None (Dict [])
      = Inl (MissingContext ''click-options'')"
    using options_directive_needs_context [where imp = ?imp and dname = "''click-options''"
        and prog_option = None and td = "Dict []", THEN conjunct1]
    by simp
  have nodes: "options_generate_nodes ''prog'' ?cli = Inr [Parsed ''prog'' []]"
    by code_simp
  have present: "click_options_directive_run ?imp ''click-options'' [] None ?td
      = Inr [Parsed ''prog'' []]"
    using options_directive_needs_context [where imp = ?imp and dname = "''click-options''"
        and prog_option = None and td = ?td and cmd = ?cli and p = "''prog''"]
    by (simp add: nodes)
  from absent present show ?thesis by (rule conjI)
qed



lemma parents_pushed: "parents (chain_map [d, td]) = Inr (ChainMap [td])"
  by (simp add: chain_map_def)

lemma click_directive_run_cases:
  "click_directive_run imp parsing args options td =
     (case args of
        [] \<Rightarrow> (Inl IndexError, td)
      | reference # _ \<Rightarrow>
          (case load_module imp reference of
             Inl e \<Rightarrow> (Inl e, td)
           | Inr cmd \<Rightarrow>
               (case prog options of
                  None \<Rightarrow> (Inl MissingProgOption, td)
                | Some prog_name \<Rightarrow>
                    (case parents (parsing (ChainMap [Dict [(''click:command'', TCommand cmd),
                                                            (''click:prog'', TStr prog_name)], td])) of
                       Inl e \<Rightarrow>
                         (Inl e, parsing (ChainMap [Dict [(''click:command'', TCommand cmd),
                                                          (''click:prog'', TStr prog_name)], td]))
                     | Inr popped \<Rightarrow>
                         (generate_nodes prog_name cmd None (show_nested_flag options)
                            (commands_option options), popped)))))"
  by (simp add: click_directive_run_def Let_def chain_map_def
      split: list.splits sum.splits option.splits)

lemma options_run_lookup_only:
  assumes "\<And>key. td_get td' key = td_get td key"
  shows "click_options_directive_run imp dname args po td' = click_options_directive_run imp dname args po td"
  unfolding click_options_directive_run_def assms by (rule refl)

text \<open>
  A run during which no directive assigns \<^verbatim>\<open>env.temp_data\<close> (the directives of the parsed
  lines may write keys: they go to the dictionary the run has pushed).  Every lookup in the
  state gives afterwards what it gave before, whether the run returned nodes or failed,
  and a loaded command with \<^verbatim>\<open>prog\<close> given has the outcome of the tree walker.
\<close>

lemma click_directive_run_restores:
  assumes "\<And>d. \<exists>d'. parsing (ChainMap [d, td]) = ChainMap [d', td]"
  shows "td_get (snd (click_directive_run imp parsing args options td)) key = td_get td key"
    and "snd (click_directive_run imp parsing args options td) = td
         \<or> snd (click_directive_run imp parsing args options td) = ChainMap [td]"
    and "load_module imp reference = Inr cmd \<Longrightarrow> prog options = Some prog_name \<Longrightarrow>
         click_directive_run imp parsing (reference # rest) options td =
           (generate_nodes prog_name cmd None (show_nested_flag options) (commands_option options),
            ChainMap [td])"
proof -
  have pop: "parents (parsing (ChainMap [d, td])) = Inr (ChainMap [td])" for d
  proof -
    from assms obtain d' where "parsing (ChainMap [d, td]) = ChainMap [d', td]" by blast
    then show ?thesis by (simp add: chain_map_def)
  qed
  show shape: "snd (click_directive_run imp parsing args options td) = td
         \<or> snd (click_directive_run imp parsing args options td) = ChainMap [td]"
    by (simp add: click_directive_run_cases pop split: list.splits sum.splits option.splits)
  then show "td_get (snd (click_directive_run imp parsing args options td)) key = td_get td key"
    by (auto split: option.splits)
  show "load_module imp reference = Inr cmd \<Longrightarrow> prog options = Some prog_name \<Longrightarrow>
         click_directive_run imp parsing (reference # rest) options td =
           (generate_nodes prog_name cmd None (show_nested_flag options) (commands_option options),
            ChainMap [td])"
    by (simp add: click_directive_run_cases pop)
qed

text \<open>
  Such a run that fails in the rendering: the command has an option with an environment
  variable and no primary flag name, for which \<^verbatim>\<open>_format_envvar\<close> raises \<^verbatim>\<open>IndexError\<close>.
  The state after the run is a chain of the state before, and the lookup of the command
  gives the command of the enclosing run.
\<close>

lemma click_directive_run_failure_example:
  "click_directive_run
     (\<lambda>m fromlist. Imported [''cli'' \<mapsto> Command ''cli'' None None []
         [\<lparr>kind = OptionKind, opts = [], secondary_opts = [''x''], is_flag = True,
           count_flag = False, metavar = [], help_str = None, rich_help = None,
           default_val = None, show_default = False, required = False,
           hidden = False, envvar = Some ''X'', human_readable_name = ''x'', nargs = 1\<rparr>] []])
     (\<lambda>t. t) [''pkg.mod:cli'']
     \<lparr>prog = Some ''prog'', show_nested_flag = False, auto_flag = False, commands_option = None\<rparr>
     (ChainMap [Dict [(''click:command'', TCommand (Command ''outer'' None None [] [] [])),
                      (''click:prog'', TStr ''outer'')], Dict []])
   = (Inl IndexError,
      ChainMap [ChainMap [Dict [(''click:command'', TCommand (Command ''outer'' None None [] [] [])),
                                (''click:prog'', TStr ''outer'')], Dict []]])
   \<and> td_get (ChainMap [ChainMap [Dict [(''click:command'', TCommand (Command ''outer'' None None [] [] [])),
                                (''click:prog'', TStr ''outer'')], Dict []]]) ''click:command''
     = Some (TCommand (Command ''outer'' None None [] [] []))"
proof -
  let ?opt = "\<lparr>kind = OptionKind, opts = [], secondary_opts = [''x''], is_flag = True,
           count_flag = False, metavar = [], help_str = None, rich_help = None,
           default_val = None, show_default = False, required = False,
           hidden = False, envvar = Some ''X'', human_readable_name = ''x'', nargs = 1\<rparr>"
  let ?cli = "Command ''cli'' None None [] [?opt] []"
  let ?imp = "\<lambda>m fromlist. Imported [''cli'' \<mapsto> ?cli] :: command import_outcome"
  let ?options = "\<lparr>prog = Some ''prog'', show_nested_flag = False, auto_flag = False,
           commands_option = None\<rparr>"
  let ?td = "ChainMap [Dict [(''click:command'', TCommand (Command ''outer'' None None [] [] [])),
                      (''click:prog'', TStr ''outer'')], Dict []]"
  have loaded: "load_module ?imp ''pkg.mod:cli'' = Inr ?cli"
    using load_module_parts [of "''pkg.mod''" ?imp "''cli''"] by simp
  have fails: "generate_nodes ''prog'' ?cli None False None = Inl IndexError"
    by code_simp
  have flags: "show_nested_flag ?options = False" "commands_option ?options = None"
    by simp_all
  have same: "\<And>d. \<exists>d'. (\<lambda>t. t) (ChainMap [d, ?td]) = ChainMap [d', ?td]"
    by simp
  have run: "click_directive_run ?imp (\<lambda>t. t) [''pkg.mod:cli''] ?options ?td = (Inl IndexError, ChainMap [?td])"
    unfolding fails [symmetric]
    by (rule trans [OF click_directive_run_restores(3) [where parsing = "\<lambda>t. t" and td = ?td,
          OF same loaded]])
       (simp_all only: flags select_convs)
  have look: "td_get (ChainMap [?td]) ''click:command'' = Some (TCommand (Command ''outer'' None None [] [] []))"
    by simp
  from run look show ?thesis by (rule conjI)
qed

text \<open>
  A run during which the parser runs a \<^verbatim>\<open>click\<close> directive of the parsed lines, one that
  loads its command and has \<^verbatim>\<open>prog\<close>.  The inner run leaves a chain of the one map that the
  outer run has pushed; the \<^verbatim>\<open>parents\<close> of that chain is the empty chain, whatever the state
  was before: every lookup gives \<open>None\<close> afterwards.
\<close>

lemma click_directive_run_nested:
  assumes outer: "load_module imp reference = Inr cmd" "prog options = Some prog_name"
    and inner: "load_module imp reference' = Inr cmd'" "prog options' = Some prog_name'"
  shows "click_directive_run imp
           (\<lambda>t. snd (click_directive_run imp (\<lambda>t. t) (reference' # rest') options' t))
           (reference # rest) options td
         = (generate_nodes prog_name cmd None (show_nested_flag options) (commands_option options),
            ChainMap [Dict []])"
    and "td_get (snd (click_directive_run imp
           (\<lambda>t. snd (click_directive_run imp (\<lambda>t. t) (reference' # rest') options' t))
           (reference # rest) options td)) key = None"
proof -
  have inner_run: "snd (click_directive_run imp (\<lambda>t. t) (reference' # rest') options' t) = ChainMap [t]" for t
    using inner by (simp add: click_directive_run_cases chain_map_def)
  show run: "click_directive_run imp
           (\<lambda>t. snd (click_directive_run imp (\<lambda>t. t) (reference' # rest') options' t))
           (reference # rest) options td
         = (generate_nodes prog_name cmd None (show_nested_flag options) (commands_option options),
            ChainMap [Dict []])"
    using outer by (simp add: click_directive_run_cases [of imp _ "reference # rest"] inner_run chain_map_def)
  show "td_get (snd (click_directive_run imp
           (\<lambda>t. snd (click_directive_run imp (\<lambda>t. t) (reference' # rest') options' t))
           (reference # rest) options td)) key = None"
    unfolding run by simp
qed

text \<open>
  Claim C6 on the code.  The module \<^verbatim>\<open>pkg.mod\<close> has the commands \<open>mid\<close> and \<open>inner\<close>, and the
  help text of \<open>mid\<close> holds the directive \<^verbatim>\<open>.. click:: pkg.mod:inner\<close> with \<^verbatim>\<open>:prog: inner\<close>.
  The directive \<^verbatim>\<open>.. click:: pkg.mod:mid\<close> with \<^verbatim>\<open>:prog: mid\<close> runs in the document \<open>index\<close>
  within the help text of the command \<open>enc\<close>, whose run has pushed its entry.  The run
  returns the node of \<open>mid\<close>, whose lines hold the directive for \<open>inner\<close>, which the parser
  runs.  After the run the state is the empty chain: the lookup of the command gives
  \<open>None\<close> and not the command \<open>enc\<close> of the enclosing run, the name of the document is
  lost, and a \<^verbatim>\<open>click-options\<close> directive that follows in the help text of \<open>enc\<close> fails
  with \<open>MissingContext\<close>, though it rendered the options of \<open>enc\<close> before the run.
\<close>

theorem click_directive_run_nested_loses_state:
  "click_directive_run
     (\<lambda>m fromlist. Imported
        [''mid'' \<mapsto> Command ''mid''
           (Some (''Mid.'' @ [LF, LF] @ ''.. click:: pkg.mod:inner'' @ [LF] @ ''   :prog: inner''))
           None [] [] [],
         ''inner'' \<mapsto> Command ''inner'' None None [] [] []])
     (\<lambda>t. snd (click_directive_run
        (\<lambda>m fromlist. Imported
           [''mid'' \<mapsto> Command ''mid''
              (Some (''Mid.'' @ [LF, LF] @ ''.. click:: pkg.mod:inner'' @ [LF] @ ''   :prog: inner''))
              None [] [] [],
            ''inner'' \<mapsto> Command ''inner'' None None [] [] []])
        (\<lambda>t. t) [''pkg.mod:inner'']
        \<lparr>prog = Some ''inner'', show_nested_flag = False, auto_flag = False, commands_option = None\<rparr>
        t))
     [''pkg.mod:mid'']
     \<lparr>prog = Some ''mid'', show_nested_flag = False, auto_flag = False, commands_option = None\<rparr>
     (ChainMap [Dict [(''click:command'', TCommand (Command ''enc'' None None [] [] [])),
                      (''click:prog'', TStr ''enc'')],
                Dict [(''docname'', TStr ''index'')]])
   = (Inr [Parsed ''mid''
             [''.. program:: mid'', [], ''Synopsis'', ''--------'', [], [], ''**mid** '', [],
              ''Description'', ''-----------'', [], ''Mid.'', [], ''.. click:: pkg.mod:inner'',
              ''   :prog: inner'', []]],
      ChainMap [Dict []])
   \<and> td_get (ChainMap [Dict [(''click:command'', TCommand (Command ''enc'' None None [] [] [])),
                             (''click:prog'', TStr ''enc'')],
                       Dict [(''docname'', TStr ''index'')]]) ''click:command''
       = Some (TCommand (Command ''enc'' None None [] [] []))
   \<and> td_get (ChainMap [Dict []]) ''click:command'' = None
   \<and> td_get (ChainMap [Dict [(''click:command'', TCommand (Command ''enc'' None None [] [] [])),
                             (''click:prog'', TStr ''enc'')],
                       Dict [(''docname'', TStr ''index'')]]) ''docname''
       = Some (TStr ''index'')
   \<and> td_get (ChainMap [Dict []]) ''docname'' = None
   \<and> click_options_directive_run (\<lambda>m fromlist. ImportRaises SystemExit) ''click-options'' [] None
       (ChainMap [Dict [(''click:command'', TCommand (Command ''enc'' None None [] [] [])),
                        (''click:prog'', TStr ''enc'')],
                  Dict [(''docname'', TStr ''index'')]])
       = Inr [Parsed ''enc'' []]
   \<and> click_options_directive_run (\<lambda>m fromlist. ImportRaises SystemExit) ''click-options'' [] None
       (ChainMap [Dict []])
       = Inl (MissingContext ''click-options'')"
proof -
  let ?mid = "Command ''mid''
           (Some (''Mid.'' @ [LF, LF] @ ''.. click:: pkg.mod:inner'' @ [LF] @ ''   :prog: inner''))
           None [] [] []"
  let ?inner = "Command ''inner'' None None [] [] []"
  let ?enc = "Command ''enc'' None None [] [] []"
  let ?imp = "\<lambda>m fromlist. Imported [''mid'' \<mapsto> ?mid, ''inner'' \<mapsto> ?inner] :: command import_outcome"
  let ?none = "\<lambda>m fromlist. ImportRaises SystemExit :: command import_outcome"
  let ?mid_options = "\<lparr>prog = Some ''mid'', show_nested_flag = False, auto_flag = False,
           commands_option = None\<rparr>"
  let ?inner_options = "\<lparr>prog = Some ''inner'', show_nested_flag = False, auto_flag = False,
           commands_option = None\<rparr>"
  let ?td = "ChainMap [Dict [(''click:command'', TCommand ?enc), (''click:prog'', TStr ''enc'')],
                Dict [(''docname'', TStr ''index'')]]"
  have mid: "load_module ?imp ''pkg.mod:mid'' = Inr ?mid"
    using load_module_parts [of "''pkg.mod''" ?imp "''mid''"] by simp
  have inner: "load_module ?imp ''pkg.mod:inner'' = Inr ?inner"
    using load_module_parts [of "''pkg.mod''" ?imp "''inner''"] by simp
  have nodes: "generate_nodes ''mid'' ?mid None False None =
      Inr [Parsed ''mid''
             [''.. program:: mid'', [], ''Synopsis'', ''--------'', [], [], ''**mid** '', [],
              ''Description'', ''-----------'', [], ''Mid.'', [], ''.. click:: pkg.mod:inner'',
              ''   :prog: inner'', []]]"
    by code_simp
  have flags: "show_nested_flag ?mid_options = False" "commands_option ?mid_options = None"
    by simp_all
  have run: "click_directive_run ?imp
      (\<lambda>t. snd (click_directive_run ?imp (\<lambda>t. t) [''pkg.mod:inner''] ?inner_options t))
      [''pkg.mod:mid''] ?mid_options ?td
      = (Inr [Parsed ''mid''
             [''.. program:: mid'', [], ''Synopsis'', ''--------'', [], [], ''**mid** '', [],
              ''Description'', ''-----------'', [], ''Mid.'', [], ''.. click:: pkg.mod:inner'',
              ''   :prog: inner'', []]],
         ChainMap [Dict []])"
    unfolding nodes [symmetric]
    by (rule trans [OF click_directive_run_nested(1) [OF mid _ inner]]) (simp_all only: flags select_convs)
  have before: "click_options_directive_run ?none ''click-options'' [] None ?td = Inr [Parsed ''enc'' []]"
    by code_simp
  have after: "click_options_directive_run ?none ''click-options'' [] None (ChainMap [Dict []])
      = Inl (MissingContext ''click-options'')"
    by (simp add: click_options_directive_run_def)
  have lookups: "td_get ?td ''click:command'' = Some (TCommand ?enc)"
    "td_get (ChainMap [Dict []]) ''click:command'' = None"
    "td_get ?td ''docname'' = Some (TStr ''index'')"
    "td_get (ChainMap [Dict []]) ''docname'' = None"
    by simp_all
  from run lookups before after show ?thesis by blast
qed

section \<open>The tree walker and the filter\<close>

lemma format_command_nested_ignores_filter:
  "format_command ctx True commands_arg = format_command ctx True None"
  by (simp add: format_command_def Let_def split: sum.splits)

lemma extend_all_append:
  "extend_all (rs @ ss) =
     (case extend_all rs of
        Inl e \<Rightarrow> Inl e
      | Inr ns \<Rightarrow> (case extend_all ss of Inl e \<Rightarrow> Inl e | Inr ms \<Rightarrow> Inr (ns @ ms)))"
  by (induction rs) (auto split: sum.splits)

lemma extend_all_concat:
  "extend_all (map (\<lambda>x. extend_all (map f (g x))) xs) = extend_all (map f (concat (map g xs)))"
  by (induction xs) (auto simp: extend_all_append split: sum.splits)

lemma generate_nodes_nested:
  "show_nested \<Longrightarrow>
   generate_nodes nm cmd parent_ctx show_nested commands_arg =
     extend_all (map render_one
       (Context cmd nm parent_ctx #
        concat (map (\<lambda>sub. subtree (Context sub (name sub) (Some (Context cmd nm parent_ctx))))
                    (filter_commands (Context cmd nm parent_ctx) commands_arg))))"
proof (induction nm cmd parent_ctx show_nested commands_arg rule: generate_nodes.induct)
  case (1 nm cmd parent_ctx show_nested commands_arg)
  let ?ctx = "Context cmd nm parent_ctx"
  let ?fc = "filter_commands ?ctx commands_arg"
  from "1.prems" have sn: "show_nested = True" by simp
  show ?case
  proof (cases "format_command ?ctx True None")
    case (Inl e)
    then have "render_one ?ctx = Inl e" by (simp add: render_one_def)
    moreover have "generate_nodes nm cmd parent_ctx show_nested commands_arg = Inl e"
      using Inl sn by (subst generate_nodes.simps)
        (simp add: Let_def format_command_nested_ignores_filter [of ?ctx commands_arg])
    ultimately show ?thesis by simp
  next
    case (Inr lines)
    then have fc: "format_command ?ctx show_nested commands_arg = Inr lines"
      using sn by (simp add: format_command_nested_ignores_filter [of ?ctx commands_arg])
    have ih: "generate_nodes (name sub) sub (Some ?ctx) show_nested None =
        extend_all (map render_one (subtree (Context sub (name sub) (Some ?ctx))))"
      if "sub \<in> set ?fc" for sub
    proof -
      have "generate_nodes (name sub) sub (Some ?ctx) show_nested None =
          extend_all (map render_one
            (Context sub (name sub) (Some ?ctx) #
             concat (map (\<lambda>s. subtree (Context s (name s) (Some (Context sub (name sub) (Some ?ctx)))))
                         (filter_commands (Context sub (name sub) (Some ?ctx)) None))))"
        using "1.IH" [OF refl refl fc refl _ that] sn by simp
      then show ?thesis by (subst subtree.simps) simp
    qed
    have children: "map (\<lambda>sub. generate_nodes (name sub) sub (Some ?ctx) show_nested None) ?fc
        = map (\<lambda>sub. extend_all (map render_one (subtree (Context sub (name sub) (Some ?ctx))))) ?fc"
      using ih by simp
    have one: "render_one ?ctx = Inr [Parsed (command_path ?ctx) lines]"
      using Inr by (simp add: render_one_def)
    have "generate_nodes nm cmd parent_ctx show_nested commands_arg =
        (case extend_all (map (\<lambda>sub. generate_nodes (name sub) sub (Some ?ctx) show_nested None) ?fc) of
           Inl e \<Rightarrow> Inl e
         | Inr children \<Rightarrow> Inr ([Parsed (command_path ?ctx) lines] @ children))"
      using fc sn by (subst generate_nodes.simps) (simp add: Let_def)
    then show ?thesis
      unfolding children extend_all_concat by (simp add: one)
  qed
qed

text \<open>
  Claim C1, as amended.  With the flag for nested subcommands set, the tree walker applies
  the filter to the subcommands of the command it was called for and to no others: it
  renders that command, then for each subcommand the filter selects, in the order of the
  selection, that subcommand and all its descendants, the subcommands of every descendant
  all selected and in the order of their names.  The nodes follow each other in the order
  of this traversal, and the first error ends it.
\<close>

theorem generate_nodes_nested_walk:
  "generate_nodes nm cmd parent_ctx True commands_arg =
     extend_all (map render_one
       (Context cmd nm parent_ctx #
        concat (map (\<lambda>sub. subtree (Context sub (name sub) (Some (Context cmd nm parent_ctx))))
                    (filter_commands (Context cmd nm parent_ctx) commands_arg))))
   \<and> generate_nodes (name sub) sub (Some ctx) True None =
       extend_all (map render_one (subtree (Context sub (name sub) (Some ctx))))
   \<and> subtree ctx =
       ctx # concat (map (\<lambda>sub. subtree (Context sub (name sub) (Some ctx))) (filter_commands ctx None))"
proof -
  have root: "generate_nodes nm cmd parent_ctx True commands_arg =
     extend_all (map render_one
       (Context cmd nm parent_ctx #
        concat (map (\<lambda>sub. subtree (Context sub (name sub) (Some (Context cmd nm parent_ctx))))
                    (filter_commands (Context cmd nm parent_ctx) commands_arg))))"
    by (rule generate_nodes_nested) simp
  have "generate_nodes (name sub) sub (Some ctx) True None =
     extend_all (map render_one
       (Context sub (name sub) (Some ctx) #
        concat (map (\<lambda>s. subtree (Context s (name s) (Some (Context sub (name sub) (Some ctx)))))
                    (filter_commands (Context sub (name sub) (Some ctx)) None))))"
    by (rule generate_nodes_nested) simp
  then have child: "generate_nodes (name sub) sub (Some ctx) True None =
       extend_all (map render_one (subtree (Context sub (name sub) (Some ctx))))"
    by (subst subtree.simps) simp
  have tree: "subtree ctx =
       ctx # concat (map (\<lambda>sub. subtree (Context sub (name sub) (Some ctx))) (filter_commands ctx None))"
    by (rule subtree.simps)
  from root child tree show ?thesis by blast
qed

theorem generate_nodes_nested_walk_witness:
  "rendered_paths (extend_all (map render_one
     (Context (Command ''cli'' None None [] []
                 [(''b'', Command ''b'' None None [] [] []),
                  (''a'', Command ''a'' None None [] []
                            [(''y'', Command ''y'' None None [] [] []),
                             (''x'', Command ''x'' None None [] [] [])])]) ''prog'' None #
      concat (map (\<lambda>sub. subtree (Context sub (name sub) (Some
                (Context (Command ''cli'' None None [] []
                   [(''b'', Command ''b'' None None [] [] []),
                    (''a'', Command ''a'' None None [] []
                              [(''y'', Command ''y'' None None [] [] []),
                               (''x'', Command ''x'' None None [] [] [])])]) ''prog'' None))))
              (filter_commands
                (Context (Command ''cli'' None None [] []
                   [(''b'', Command ''b'' None None [] [] []),
                    (''a'', Command ''a'' None None [] []
                              [(''y'', Command ''y'' None None [] [] []),
                               (''x'', Command ''x'' None None [] [] [])])]) ''prog'' None)
                (Some ''a''))))))
   = [''prog'', ''prog a'', ''prog a x'', ''prog a y'']"
proof -
  let ?a = "Command ''a'' None None [] []
                   [(''y'', Command ''y'' None None [] [] []),
                    (''x'', Command ''x'' None None [] [] [])]"
  let ?root = "Command ''cli'' None None [] [] [(''b'', Command ''b'' None None [] [] []), (''a'', ?a)]"
  let ?ctx = "Context ?root ''prog'' None"
  have run: "rendered_paths (generate_nodes ''prog'' ?root None True (Some ''a''))
     = [''prog'', ''prog a'', ''prog a x'', ''prog a y'']"
    by code_simp
  have walk: "generate_nodes ''prog'' ?root None True (Some ''a'') =
     extend_all (map render_one
       (?ctx # concat (map (\<lambda>sub. subtree (Context sub (name sub) (Some ?ctx)))
                           (filter_commands ?ctx (Some ''a'')))))"
    by (rule generate_nodes_nested_walk [THEN conjunct1])
  have "rendered_paths (extend_all (map render_one
       (?ctx # concat (map (\<lambda>sub. subtree (Context sub (name sub) (Some ?ctx)))
                           (filter_commands ?ctx (Some ''a''))))))
     = rendered_paths (generate_nodes ''prog'' ?root None True (Some ''a''))"
    by (rule arg_cong [where f = rendered_paths, OF walk [symmetric]])
  then show ?thesis using run by (rule trans)
qed

text \<open>
  Claim C1 as it is worded fails on the code.  The command \<open>cli\<close> has the subcommand \<open>a\<close>,
  which has the subcommand \<open>x\<close>; the filter is \<^verbatim>\<open>a\<close>.  The code renders \<open>x\<close> below \<open>a\<close>,
  though the filter does not select it; a walker that uses the filter at every level
  renders \<open>cli\<close> and \<open>a\<close> only.
\<close>

theorem nested_filter_counterexample:
  "rendered_paths (generate_nodes ''prog''
        (Command ''cli'' None None [] []
           [(''a'', Command ''a'' None None [] [] [(''x'', Command ''x'' None None [] [] [])])])
        None True (Some ''a'')) = [''prog'', ''prog a'', ''prog a x'']
   \<and> rendered_paths (generate_nodes_same_filter ''prog''
        (Command ''cli'' None None [] []
           [(''a'', Command ''a'' None None [] [] [(''x'', Command ''x'' None None [] [] [])])])
        None True (Some ''a'')) = [''prog'', ''prog a'']
   \<and> generate_nodes ''prog''
        (Command ''cli'' None None [] []
           [(''a'', Command ''a'' None None [] [] [(''x'', Command ''x'' None None [] [] [])])])
        None True (Some ''a'')
     \<noteq> generate_nodes_same_filter ''prog''
        (Command ''cli'' None None [] []
           [(''a'', Command ''a'' None None [] [] [(''x'', Command ''x'' None None [] [] [])])])
        None True (Some ''a'')"
proof -
  let ?root = "Command ''cli'' None None [] []
           [(''a'', Command ''a'' None None [] [] [(''x'', Command ''x'' None None [] [] [])])]"
  have code: "rendered_paths (generate_nodes ''prog'' ?root None True (Some ''a''))
      = [''prog'', ''prog a'', ''prog a x'']"
    by code_simp
  have spec: "rendered_paths (generate_nodes_same_filter ''prog'' ?root None True (Some ''a''))
      = [''prog'', ''prog a'']"
    by code_simp
  have "generate_nodes ''prog'' ?root None True (Some ''a'')
      \<noteq> generate_nodes_same_filter ''prog'' ?root None True (Some ''a'')"
  proof
    assume "generate_nodes ''prog'' ?root None True (Some ''a'')
      = generate_nodes_same_filter ''prog'' ?root None True (Some ''a'')"
    then have "rendered_paths (generate_nodes ''prog'' ?root None True (Some ''a''))
      = rendered_paths (generate_nodes_same_filter ''prog'' ?root None True (Some ''a''))"
      by (rule arg_cong)
    then show False unfolding code spec by simp
  qed
  with code spec show ?thesis by blast
qed

section \<open>The sections of a command\<close>

lemma format_options_of_empty_iff: "format_options_of ps = Inr ls \<Longrightarrow> ls = [] \<longleftrightarrow> ps = []"
  by (cases ps) (auto split: sum.splits)

lemma format_options_empty_iff:
  "format_options ctx = Inr ls \<Longrightarrow> ls = [] \<longleftrightarrow> \<not> has_visible_option (command ctx)"
  by (auto simp: format_options_def has_visible_option_def format_options_of_empty_iff list_ex_iff
      filter_empty_conv)

lemma format_arguments_empty_iff: "format_arguments ctx = [] \<longleftrightarrow> \<not> has_argument (command ctx)"
  by (auto simp: format_arguments_def has_argument_def Let_def list_ex_iff filter_empty_conv)

lemma format_envvars_of_empty_iff: "format_envvars_of ps = Inr envs \<Longrightarrow> envs = [] \<longleftrightarrow> ps = []"
  by (cases ps) (auto split: sum.splits)

lemma format_envvars_empty_iff:
  "format_envvars ctx = Inr envs \<Longrightarrow> envs = [] \<longleftrightarrow> \<not> has_envvar (command ctx)"
  by (auto simp: format_envvars_def has_envvar_def format_envvars_of_empty_iff list_ex_iff filter_empty_conv)

lemma format_command_sections:
  assumes "format_command ctx show_nested commands_arg = Inr out"
  shows "\<exists>options envs. format_options ctx = Inr options \<and> format_envvars ctx = Inr envs \<and>
     out = [''.. program:: '' @ command_path ctx, [], ''Synopsis'', ''--------'', []]
           @ format_usage ctx
           @ [''Description'', ''-----------'', []]
           @ format_description ctx
           @ (if has_visible_option (command ctx) then heading ''Options'' @ options else [])
           @ (if has_argument (command ctx) then heading ''Arguments'' @ format_arguments ctx else [])
           @ (if has_envvar (command ctx) then heading ''Environment variables'' @ envs else [])
           @ (if show_nested then []
              else (if filter_commands ctx commands_arg \<noteq> [] then heading ''Commands'' else [])
                   @ concat (map (\<lambda>cmd. format_subcommand cmd @ [[]]) (filter_commands ctx commands_arg)))"
proof (cases "format_options ctx")
  case (Inl e)
  with assms show ?thesis by (simp add: format_command_def Let_def)
next
  case options: (Inr options)
  show ?thesis
  proof (cases "format_envvars ctx")
    case (Inl e)
    with assms options show ?thesis by (simp add: format_command_def Let_def)
  next
    case (Inr envs)
    have o: "options = [] \<longleftrightarrow> \<not> has_visible_option (command ctx)"
      using options by (rule format_options_empty_iff)
    have a: "format_arguments ctx = [] \<longleftrightarrow> \<not> has_argument (command ctx)"
      by (rule format_arguments_empty_iff)
    have e: "envs = [] \<longleftrightarrow> \<not> has_envvar (command ctx)"
      using Inr by (rule format_envvars_empty_iff)
    have h: "heading ''Options'' = [''Options'', ''-------'', []]"
      "heading ''Arguments'' = [''Arguments'', ''---------'', []]"
      "heading ''Environment variables'' = [''Environment variables'', ''---------------------'', []]"
      "heading ''Commands'' = [''Commands'', ''--------'', []]"
      by (simp_all add: heading_def numeral_eq_Suc)
    from assms options Inr have "out =
        ([''.. program:: '' @ command_path ctx, [], ''Synopsis'', ''--------'', []]
             @ format_usage ctx
             @ [''Description'', ''-----------'', []]
             @ format_description ctx
             @ (if options \<noteq> [] then [''Options'', ''-------'', []] else []) @ options
             @ (if format_arguments ctx \<noteq> [] then [''Arguments'', ''---------'', []] else []) @ format_arguments ctx
             @ (if envs \<noteq> [] then [''Environment variables'', ''---------------------'', []] else []) @ envs
             @ (if show_nested then []
                else (if filter_commands ctx commands_arg \<noteq> [] then [''Commands'', ''--------'', []] else [])
                     @ concat (map (\<lambda>cmd. format_subcommand cmd @ [[]]) (filter_commands ctx commands_arg))))"
      by (cases show_nested) (simp_all add: format_command_def Let_def)
    also have "\<dots> = [''.. program:: '' @ command_path ctx, [], ''Synopsis'', ''--------'', []]
             @ format_usage ctx
             @ [''Description'', ''-----------'', []]
             @ format_description ctx
             @ (if has_visible_option (command ctx) then heading ''Options'' @ options else [])
             @ (if has_argument (command ctx) then heading ''Arguments'' @ format_arguments ctx else [])
             @ (if has_envvar (command ctx) then heading ''Environment variables'' @ envs else [])
             @ (if show_nested then []
                else (if filter_commands ctx commands_arg \<noteq> [] then heading ''Commands'' else [])
                     @ concat (map (\<lambda>cmd. format_subcommand cmd @ [[]]) (filter_commands ctx commands_arg)))"
      unfolding h using o a e by (cases "has_visible_option (command ctx)"; cases "has_argument (command ctx)";
        cases "has_envvar (command ctx)") simp_all
    finally show ?thesis using options Inr by blast
  qed
qed


lemma indent_head: "indent t 1 = [] \<or> is_space (hd (indent t 1))"
proof (cases "t = []")
  case True
  then show ?thesis by (simp add: indent_def prefixed_lines_def)
next
  case False
  then obtain l ls where ls: "splitlines True t = l # ls"
    by (cases "splitlines True t") auto
  have "lines_ok (l # ls)" using lines_ok_splitlines [of t] ls by simp
  then have lne: "l \<noteq> []" by (rule lines_ok_nonempty) simp
  show ?thesis
  proof (cases "strip l = []")
    case True
    then have "list_all is_space l" by (simp add: strip_empty_iff)
    with lne have "is_space (hd l)" by (cases l) auto
    moreover have "hd (indent t 1) = hd l"
      using True lne by (simp add: indent_def prefixed_lines_def ls)
    ultimately show ?thesis by simp
  next
    case False
    then have "hd (indent t 1) = SP"
      by (simp add: indent_def prefixed_lines_def ls numeral_eq_Suc)
    then show ?thesis by (simp add: is_space_def)
  qed
qed

lemma block_indent: "block_line (indent t 1)"
  using indent_head [of t] by (auto simp: block_line_def)

lemma block_concat:
  assumes "\<And>x l. x \<in> set xs \<Longrightarrow> l \<in> set (f x) \<Longrightarrow> block_line l"
    and "l \<in> set (concat (map (\<lambda>x. f x @ [[]]) xs))"
  shows "block_line l"
  using assms
proof (induction xs)
  case Nil
  then show ?case by simp
next
  case (Cons x xs)
  from Cons.prems(2) have "l \<in> set (f x) \<or> l = [] \<or> l \<in> set (concat (map (\<lambda>x. f x @ [[]]) xs))"
    by auto
  then show ?case
  proof (elim disjE)
    assume "l \<in> set (f x)"
    then show ?thesis using Cons.prems(1) [of x l] by simp
  next
    assume "l = []"
    then show ?thesis by (simp add: block_line_def)
  next
    assume rest: "l \<in> set (concat (map (\<lambda>x. f x @ [[]]) xs))"
    have "\<And>y l. y \<in> set xs \<Longrightarrow> l \<in> set (f y) \<Longrightarrow> block_line l"
      by (rule Cons.prems(1)) simp_all
    then show ?thesis using rest by (rule Cons.IH)
  qed
qed

lemma block_format_option: "format_option p = Inr ls \<Longrightarrow> l \<in> set ls \<Longrightarrow> block_line l"
  by (auto simp: format_option_def Let_def block_indent split: sum.splits if_splits)
     (simp_all add: block_line_def)

lemma block_format_options_of: "format_options_of ps = Inr ls \<Longrightarrow> l \<in> set ls \<Longrightarrow> block_line l"
proof (induction ps arbitrary: ls)
  case Nil
  then show ?case by simp
next
  case (Cons p ps)
  then obtain a b where a: "format_option p = Inr a" and b: "format_options_of ps = Inr b"
    and ls: "ls = a @ [[]] @ b"
    by (auto split: sum.splits)
  from Cons.prems(2) ls have "l \<in> set a \<or> l = [] \<or> l \<in> set b" by auto
  then show ?case
    using block_format_option [OF a] Cons.IH [OF b] by (auto simp: block_line_def)
qed

lemma block_format_options: "format_options ctx = Inr ls \<Longrightarrow> l \<in> set ls \<Longrightarrow> block_line l"
  unfolding format_options_def by (rule block_format_options_of)

lemma block_format_argument: "l \<in> set (format_argument p) \<Longrightarrow> block_line l"
  by (auto simp: format_argument_def block_indent) (simp_all add: block_line_def)

lemma block_format_arguments: "l \<in> set (format_arguments ctx) \<Longrightarrow> block_line l"
  unfolding format_arguments_def Let_def
  by (erule block_concat [rotated]) (rule block_format_argument)

lemma block_format_envvar: "format_envvar p = Inr ls \<Longrightarrow> l \<in> set ls \<Longrightarrow> block_line l"
  by (auto simp: format_envvar_def block_indent split: sum.splits if_splits list.splits)
     (simp_all add: block_line_def)

lemma block_format_envvars_of: "format_envvars_of ps = Inr ls \<Longrightarrow> l \<in> set ls \<Longrightarrow> block_line l"
proof (induction ps arbitrary: ls)
  case Nil
  then show ?case by simp
next
  case (Cons p ps)
  then obtain a b where a: "format_envvar p = Inr a" and b: "format_envvars_of ps = Inr b"
    and ls: "ls = a @ [[]] @ b"
    by (auto split: sum.splits)
  from Cons.prems(2) ls have "l \<in> set a \<or> l = [] \<or> l \<in> set b" by auto
  then show ?case
    using block_format_envvar [OF a] Cons.IH [OF b] by (auto simp: block_line_def)
qed

lemma block_format_envvars: "format_envvars ctx = Inr ls \<Longrightarrow> l \<in> set ls \<Longrightarrow> block_line l"
  unfolding format_envvars_def by (rule block_format_envvars_of)

lemma block_format_subcommand: "l \<in> set (format_subcommand c) \<Longrightarrow> block_line l"
  by (auto simp: format_subcommand_def block_indent) (simp_all add: block_line_def)

lemma block_subcommands:
  "l \<in> set (concat (map (\<lambda>cmd. format_subcommand cmd @ [[]]) cs)) \<Longrightarrow> block_line l"
  by (erule block_concat [rotated]) (rule block_format_subcommand)

lemma titles_no_block_lines:
  "\<not> block_line ''Options''" "\<not> block_line ''Arguments''" "\<not> block_line ''Environment variables''"
  by (simp_all add: block_line_def is_space_def)


text \<open>
  Claim C5, as amended.  The command renderer writes the heading \<^verbatim>\<open>Options\<close> (the title,
  the line of dashes, an empty line) in front of the option blocks exactly when the command
  has an option that is not hidden, and writes neither the heading nor a block otherwise;
  likewise \<^verbatim>\<open>Arguments\<close> for an argument and \<^verbatim>\<open>Environment variables\<close> for a parameter with
  an environment variable.  The output is the program line, the synopsis and the
  description followed by these three sections and, unless subcommands are nested, the
  section of the subcommands.  When the lines of the usage and of the description, which
  come from the command's own texts, do not hold the title, the title is a line of the
  output exactly when the command has such an item.
\<close>

theorem section_heading_emission:
  assumes "format_command ctx show_nested commands_arg = Inr out"
  shows "(\<exists>options envs. format_options ctx = Inr options \<and> format_envvars ctx = Inr envs \<and>
     out = [''.. program:: '' @ command_path ctx, [], ''Synopsis'', ''--------'', []]
           @ format_usage ctx
           @ [''Description'', ''-----------'', []]
           @ format_description ctx
           @ (if has_visible_option (command ctx) then heading ''Options'' @ options else [])
           @ (if has_argument (command ctx) then heading ''Arguments'' @ format_arguments ctx else [])
           @ (if has_envvar (command ctx) then heading ''Environment variables'' @ envs else [])
           @ (if show_nested then []
              else (if filter_commands ctx commands_arg \<noteq> [] then heading ''Commands'' else [])
                   @ concat (map (\<lambda>cmd. format_subcommand cmd @ [[]]) (filter_commands ctx commands_arg))))
   \<and> (''Options'' \<notin> set (format_usage ctx) \<and> ''Options'' \<notin> set (format_description ctx) \<longrightarrow>
        (''Options'' \<in> set out \<longleftrightarrow> has_visible_option (command ctx)))
   \<and> (''Arguments'' \<notin> set (format_usage ctx) \<and> ''Arguments'' \<notin> set (format_description ctx) \<longrightarrow>
        (''Arguments'' \<in> set out \<longleftrightarrow> has_argument (command ctx)))
   \<and> (''Environment variables'' \<notin> set (format_usage ctx)
        \<and> ''Environment variables'' \<notin> set (format_description ctx) \<longrightarrow>
        (''Environment variables'' \<in> set out \<longleftrightarrow> has_envvar (command ctx)))"
proof -
  let ?subs = "concat (map (\<lambda>cmd. format_subcommand cmd @ [[]]) (filter_commands ctx commands_arg))"
  from format_command_sections [OF assms] obtain options envs where
    options: "format_options ctx = Inr options" and
    envs: "format_envvars ctx = Inr envs" and
    out: "out = [''.. program:: '' @ command_path ctx, [], ''Synopsis'', ''--------'', []]
           @ format_usage ctx
           @ [''Description'', ''-----------'', []]
           @ format_description ctx
           @ (if has_visible_option (command ctx) then heading ''Options'' @ options else [])
           @ (if has_argument (command ctx) then heading ''Arguments'' @ format_arguments ctx else [])
           @ (if has_envvar (command ctx) then heading ''Environment variables'' @ envs else [])
           @ (if show_nested then []
              else (if filter_commands ctx commands_arg \<noteq> [] then heading ''Commands'' else [])
                   @ ?subs)"
    by blast
  have blocks: "t \<notin> set options" "t \<notin> set (format_arguments ctx)"
      "t \<notin> set envs" "t \<notin> set ?subs"
    if "\<not> block_line t" for t
    using that block_format_options [OF options, of t] block_format_arguments [of t ctx]
      block_format_envvars [OF envs, of t] block_subcommands [of t "filter_commands ctx commands_arg"]
    by blast+
  note o = blocks [OF titles_no_block_lines(1)]
  note a = blocks [OF titles_no_block_lines(2)]
  note e = blocks [OF titles_no_block_lines(3)]
  have opt: "''Options'' \<notin> set (format_usage ctx) \<and> ''Options'' \<notin> set (format_description ctx) \<longrightarrow>
        (''Options'' \<in> set out \<longleftrightarrow> has_visible_option (command ctx))"
    unfolding out using o by (simp add: heading_def)
  have arg: "''Arguments'' \<notin> set (format_usage ctx) \<and> ''Arguments'' \<notin> set (format_description ctx) \<longrightarrow>
        (''Arguments'' \<in> set out \<longleftrightarrow> has_argument (command ctx))"
    unfolding out using a by (simp add: heading_def)
  have env: "''Environment variables'' \<notin> set (format_usage ctx)
        \<and> ''Environment variables'' \<notin> set (format_description ctx) \<longrightarrow>
        (''Environment variables'' \<in> set out \<longleftrightarrow> has_envvar (command ctx))"
    unfolding out using e by (simp add: heading_def)
  from options envs out opt arg env show ?thesis by blast
qed

theorem section_heading_emission_witness:
  "''Options'' \<in> set [''.. program:: prog'', [], ''Synopsis'', ''--------'', [], [],
        ''**prog** [OPTIONS]'', [], ''Description'', ''-----------'', [], ''Run it'', [],
        ''Options'', ''-------'', [], ''.. option:: --count <n>'', [], ''    How many'', []]
   \<and> ''Arguments'' \<notin> set [''.. program:: prog'', [], ''Synopsis'', ''--------'', [], [],
        ''**prog** [OPTIONS]'', [], ''Description'', ''-----------'', [], ''Run it'', [],
        ''Options'', ''-------'', [], ''.. option:: --count <n>'', [], ''    How many'', []]
   \<and> ''Environment variables'' \<notin> set [''.. program:: prog'', [], ''Synopsis'', ''--------'', [], [],
        ''**prog** [OPTIONS]'', [], ''Description'', ''-----------'', [], ''Run it'', [],
        ''Options'', ''-------'', [], ''.. option:: --count <n>'', [], ''    How many'', []]
   \<and> format_command
       (Context (Command ''cli'' (Some ''Run it'') None [''[OPTIONS]'']
          [\<lparr>kind = OptionKind, opts = [''--count''], secondary_opts = [], is_flag = False,
            count_flag = False, metavar = ''<n>'', help_str = Some ''How many'', rich_help = None,
            default_val = None, show_default = False, required = False,
            hidden = False, envvar = None, human_readable_name = ''count'', nargs = 1\<rparr>] [])
          ''prog'' None)
       False None
     = Inr [''.. program:: prog'', [], ''Synopsis'', ''--------'', [], [],
        ''**prog** [OPTIONS]'', [], ''Description'', ''-----------'', [], ''Run it'', [],
        ''Options'', ''-------'', [], ''.. option:: --count <n>'', [], ''    How many'', []]"
proof -
  let ?opt = "\<lparr>kind = OptionKind, opts = [''--count''], secondary_opts = [], is_flag = False,
            count_flag = False, metavar = ''<n>'', help_str = Some ''How many'', rich_help = None,
            default_val = None, show_default = False, required = False,
            hidden = False, envvar = None, human_readable_name = ''count'', nargs = 1\<rparr>"
  let ?cmd = "Command ''cli'' (Some ''Run it'') None [''[OPTIONS]''] [?opt] []"
  let ?ctx = "Context ?cmd ''prog'' None"
  let ?out = "[''.. program:: prog'', [], ''Synopsis'', ''--------'', [], [],
        ''**prog** [OPTIONS]'', [], ''Description'', ''-----------'', [], ''Run it'', [],
        ''Options'', ''-------'', [], ''.. option:: --count <n>'', [], ''    How many'', []]"
  have run: "format_command ?ctx False None = Inr ?out"
    by code_simp
  have usage: "format_usage ?ctx = [[], ''**prog** [OPTIONS]'', []]"
    by code_simp
  have descr: "format_description ?ctx = [''Run it'', []]"
    by code_simp
  note th = section_heading_emission [OF run]
  have free_o: "''Options'' \<notin> set (format_usage ?ctx) \<and> ''Options'' \<notin> set (format_description ?ctx)"
    unfolding usage descr by simp
  have free_a: "''Arguments'' \<notin> set (format_usage ?ctx) \<and> ''Arguments'' \<notin> set (format_description ?ctx)"
    unfolding usage descr by simp
  have free_e: "''Environment variables'' \<notin> set (format_usage ?ctx)
      \<and> ''Environment variables'' \<notin> set (format_description ?ctx)"
    unfolding usage descr by simp
  have has: "has_visible_option (command ?ctx)"
    by (simp add: has_visible_option_def)
  have no_arg: "\<not> has_argument (command ?ctx)"
    by (simp add: has_argument_def)
  have no_env: "\<not> has_envvar (command ?ctx)"
    by (simp add: has_envvar_def)
  have o: "''Options'' \<in> set ?out"
    by (rule th [THEN conjunct2, THEN conjunct1, THEN mp, OF free_o, THEN iffD2, OF has])
  have a: "''Arguments'' \<notin> set ?out"
    using th [THEN conjunct2, THEN conjunct2, THEN conjunct1, THEN mp, OF free_a] no_arg by blast
  have e: "''Environment variables'' \<notin> set ?out"
    using th [THEN conjunct2, THEN conjunct2, THEN conjunct2, THEN mp, OF free_e] no_env by blast
  from o a e run show ?thesis by blast
qed

text \<open>
  Claim C5 as it is worded fails on the code: a command without any parameter whose help
  text is the two lines \<^verbatim>\<open>Options\<close> and \<^verbatim>\<open>-------\<close> has the heading in its output, as
  lines of the description.
\<close>

theorem heading_in_help_text_counterexample:
  "format_command
     (Context (Command ''cli'' (Some (''Options'' @ [LF] @ ''-------'')) None [] [] []) ''prog'' None)
     False None
   = Inr [''.. program:: prog'', [], ''Synopsis'', ''--------'', [], [], ''**prog** '', [],
          ''Description'', ''-----------'', [], ''Options'', ''-------'', []]
   \<and> \<not> has_visible_option (Command ''cli'' (Some (''Options'' @ [LF] @ ''-------'')) None [] [] [])"
  by code_simp


end
